theory Spec2Isabelle
  imports Main "HOL-Library.Monad_Syntax"
begin

section \<open>Offline request queue, dispatcher and pending-action slice\<close>

text \<open>
  A shallow embedding of the offline subsystem of the field-worker client:
  \<^item> \<^verbatim>\<open>src/services/netInfoService.ts\<close> (connectivity probe),
  \<^item> \<^verbatim>\<open>src/services/storageService.ts\<close> (key-value storage),
  \<^item> \<^verbatim>\<open>src/services/apiService.ts\<close> (axios instance with its two interceptors),
  \<^item> \<^verbatim>\<open>src/services/offlineQueueService.ts\<close> (the queue and its drain loop),
  \<^item> \<^verbatim>\<open>src/redux/slices/offlineSlice.ts\<close> and
    \<^verbatim>\<open>src/redux/middleware/offlineMiddleware.ts\<close> (pending actions).

  The services are module-level singletons that mutate their fields, so the model passes
  one state record through every call. What the platform answers (clock, reachability,
  HTTP transport, refresh endpoint, storage writes) is a script of oracles, each read at a
  cursor kept in the state; the logs \<open>dispatched\<close>, \<open>sent\<close> and \<open>refreshed\<close> record
  the calls made. A rejected promise is the value \<open>Inl e\<close>.

  The model is sequential: an \<^verbatim>\<open>async\<close> method runs to completion where it is called,
  also when the caller does not \<^verbatim>\<open>await\<close> it. For the one such call that matters below,
  \<^verbatim>\<open>offlineQueueService.enqueueRequest(error.config)\<close> in the response interceptor, this
  is the order of the source as far as the queue goes: the initialised service resumes
  that call at its \<^verbatim>\<open>push\<close> before the error thrown on the next line reaches the
  \<^verbatim>\<open>catch\<close> block of \<^verbatim>\<open>processQueue\<close>. Where a statement below is about two calls
  that overlap, the schedule is written out from the halves of the calls, cut at an
  \<^verbatim>\<open>await\<close>.
\<close>

subsection \<open>Data\<close>

type_synonym addr = nat

text \<open>\<^verbatim>\<open>AxiosRequestConfig\<close>: the request as the caller wrote it, and the one header the
  request interceptor writes.\<close>

record 'p AxiosRequestConfig =
  payload :: 'p
  authorization :: "string option"

text \<open>\<^verbatim>\<open>interface QueuedRequest { id; config; timestamp }\<close>; the field \<^verbatim>\<open>id\<close> is
  \<open>ident\<close> here.\<close>

record 'p QueuedRequest =
  ident :: string
  config :: "'p AxiosRequestConfig"
  timestamp :: int

datatype error =
    HttpError nat
  | NetworkError
  | SetupError
  | RequestQueued
  | StorageError
  | TypeError

datatype val = Unit | Response nat

datatype fetch_result = FetchResolved "bool option" | FetchRejected

datatype http_result = Status nat | NoResponse | NoRequest

text \<open>A JavaScript value as far as the interceptors look at it (\<^verbatim>\<open>if (v)\<close>, \<^verbatim>\<open>`${v}`\<close>
  and what \<^verbatim>\<open>setItem\<close> writes for it): \<^verbatim>\<open>null\<close> or \<^verbatim>\<open>undefined\<close>; a boolean; a number
  with an integer value (of a size that \<^verbatim>\<open>String\<close> prints in decimal); a string; and
  any other value (an array, an object, a number with a fraction), which is truthy and
  comes with its two texts, \<^verbatim>\<open>String(v)\<close> and \<^verbatim>\<open>JSON.stringify(v)\<close>.\<close>

datatype jsval = JNull | JBool bool | JNum int | JStr string | JOther string string

text \<open>The answer to \<^verbatim>\<open>POST /auth/refresh\<close>: \<^verbatim>\<open>response.data.token\<close>, or a rejection.\<close>

datatype refresh_result = RefreshResolved jsval | RefreshRejected

text \<open>The callbacks given to \<^verbatim>\<open>addConnectivityListener\<close>: \<^verbatim>\<open>handleConnectivityChange\<close>
  of the queue service, and the one \<^verbatim>\<open>setupOfflineSync\<close> registers.\<close>

datatype listener = QueueListener | SyncListener

text \<open>What the platform answers: the \<open>k\<close>-th \<^verbatim>\<open>Date.now()\<close>, the \<open>k\<close>-th
  \<^verbatim>\<open>NetInfo.fetch()\<close>, the answer of the HTTP adapter to the \<open>k\<close>-th request of the
  axios instance, the answer to the \<open>k\<close>-th \<^verbatim>\<open>POST /auth/refresh\<close>, and whether the
  \<open>k\<close>-th \<^verbatim>\<open>AsyncStorage.setItem\<close> rejects; and \<^verbatim>\<open>JSON.parse\<close> on a stored text
  (\<open>None\<close> when it throws). Reads and removals of storage succeed.\<close>

record 'p script =
  dateNow :: "nat \<Rightarrow> int"
  netInfoFetch :: "nat \<Rightarrow> fetch_result"
  adapter :: "nat \<Rightarrow> 'p AxiosRequestConfig \<Rightarrow> http_result"
  refreshPost :: "nat \<Rightarrow> jsval \<Rightarrow> refresh_result"
  setItemRejects :: "nat \<Rightarrow> bool"
  JSON_parse :: "string \<Rightarrow> jsval option"

text \<open>The state: the fields of \<^verbatim>\<open>OfflineQueueService\<close>, the JavaScript heap they point
  into (arrays of references, and \<^verbatim>\<open>QueuedRequest\<close> objects), the fields of
  \<^verbatim>\<open>NetInfoService\<close>, the three storage keys in use, and the cursors and logs. The
  storage is \<^verbatim>\<open>AsyncStorage\<close> (the services pass no \<^verbatim>\<open>secure\<close> flag): \<open>auth_token\<close> and
  \<open>refresh_token\<close> are the texts stored under these keys, whoever wrote them, and
  \<open>offline_data\<close> is the queue that the stored JSON text stands for.\<close>

record 'p sys =
  queueRef :: addr
  isProcessing :: bool
  isInitialized :: bool
  arrs :: "addr \<Rightarrow> addr list"
  objs :: "addr \<Rightarrow> 'p QueuedRequest"
  nextAddr :: addr
  connected :: bool
  listeners :: "listener list"
  auth_token :: "string option"
  refresh_token :: "string option"
  offline_data :: "'p QueuedRequest list option"
  nNow :: nat
  nFetch :: nat
  nSetItem :: nat
  dispatched :: "'p AxiosRequestConfig list"
  sent :: "'p AxiosRequestConfig list"
  refreshed :: "jsval list"

subsection \<open>The heap: \<^verbatim>\<open>this.queue\<close> and its entries\<close>

definition queue :: "'p sys \<Rightarrow> addr list" where
  "queue y = arrs y (queueRef y)"

text \<open>In-place mutation of the array \<^verbatim>\<open>this.queue\<close> points to (\<^verbatim>\<open>push\<close>, \<^verbatim>\<open>shift\<close>).\<close>

definition set_queue :: "addr list \<Rightarrow> 'p sys \<Rightarrow> 'p sys" where
  "set_queue xs y = y\<lparr>arrs := (arrs y)(queueRef y := xs)\<rparr>"

text \<open>The entries of the queue, read through the heap: what \<^verbatim>\<open>JSON.stringify\<close> and
  the drain loop see.\<close>

definition contents :: "'p sys \<Rightarrow> 'p QueuedRequest list" where
  "contents y = map (objs y) (queue y)"

text \<open>\<^verbatim>\<open>this.queue.push(request)\<close> for a new object literal.\<close>

definition push_request :: "'p QueuedRequest \<Rightarrow> 'p sys \<Rightarrow> 'p sys" where
  "push_request e y =
     (let a = nextAddr y
      in set_queue (queue y @ [a]) (y\<lparr>objs := (objs y)(a := e), nextAddr := Suc a\<rparr>))"

text \<open>\<^verbatim>\<open>this.queue = persistedQueue\<close>: the parsed JSON is a new array of new objects.\<close>

definition load_queue :: "'p QueuedRequest list \<Rightarrow> 'p sys \<Rightarrow> 'p sys" where
  "load_queue es y =
     (let n = nextAddr y; k = length es
      in y\<lparr>objs := (\<lambda>a. if n \<le> a \<and> a < n + k then es ! (a - n) else objs y a),
           arrs := (arrs y)(n + k := [n..<n + k]),
           queueRef := n + k,
           nextAddr := Suc (n + k)\<rparr>)"

subsection \<open>\<^verbatim>\<open>Date.now().toString()\<close>\<close>

definition digit :: "nat \<Rightarrow> char" where
  "digit d = ''0123456789'' ! d"

fun digits :: "nat \<Rightarrow> string" where
  "digits n = (if n < 10 then [digit n] else digits (n div 10) @ [digit (n mod 10)])"

declare digits.simps [simp del]

definition toString :: "int \<Rightarrow> string" where
  "toString i = (if i < 0 then CHR ''-'' # digits (nat (- i)) else digits (nat i))"

definition Date_now :: "'p script \<Rightarrow> 'p sys \<Rightarrow> int \<times> 'p sys" where
  "Date_now sc y = (dateNow sc (nNow y), y\<lparr>nNow := Suc (nNow y)\<rparr>)"

subsection \<open>JavaScript values\<close>

text \<open>\<^verbatim>\<open>if (v)\<close>\<close>

fun truthy :: "jsval \<Rightarrow> bool" where
  "truthy JNull = False"
| "truthy (JBool b) = b"
| "truthy (JNum n) = (n \<noteq> 0)"
| "truthy (JStr s) = (s \<noteq> [])"
| "truthy (JOther s j) = True"

text \<open>\<^verbatim>\<open>`${v}`\<close>\<close>

fun String_of :: "jsval \<Rightarrow> string" where
  "String_of JNull = ''null''"
| "String_of (JBool b) = (if b then ''true'' else ''false'')"
| "String_of (JNum n) = toString n"
| "String_of (JStr s) = s"
| "String_of (JOther s j) = s"

text \<open>\<^verbatim>\<open>typeof value === 'string' ? value : JSON.stringify(value)\<close>, the text that
  \<^verbatim>\<open>storageService.setItem\<close> writes.\<close>

fun setItem_text :: "jsval \<Rightarrow> string" where
  "setItem_text JNull = ''null''"
| "setItem_text (JBool b) = (if b then ''true'' else ''false'')"
| "setItem_text (JNum n) = toString n"
| "setItem_text (JStr s) = s"
| "setItem_text (JOther s j) = j"

subsection \<open>\<^verbatim>\<open>NetInfoService\<close>\<close>

text \<open>\<^verbatim>\<open>isConnected\<close>: \<^verbatim>\<open>try { state = await NetInfo.fetch(); this.connected =
  state.isConnected ?? false; return this.connected } catch { return this.connected }\<close>\<close>

definition isConnected :: "'p script \<Rightarrow> 'p sys \<Rightarrow> (error + bool) \<times> 'p sys" where
  "isConnected sc y =
     (let y1 = y\<lparr>nFetch := Suc (nFetch y)\<rparr>
      in case netInfoFetch sc (nFetch y) of
           FetchResolved st \<Rightarrow>
             (let b = (case st of Some c \<Rightarrow> c | None \<Rightarrow> False)
              in (Inr b, y1\<lparr>connected := b\<rparr>))
         | FetchRejected \<Rightarrow> (Inr (connected y1), y1))"

subsection \<open>\<^verbatim>\<open>StorageService\<close>\<close>

text \<open>\<^verbatim>\<open>getItem(key)\<close> with its defaults (\<^verbatim>\<open>parseJson = true\<close>), on what is stored
  under the key: \<^verbatim>\<open>null\<close> when nothing is, else \<^verbatim>\<open>JSON.parse\<close> of the text, and the text
  itself when \<^verbatim>\<open>JSON.parse\<close> throws.\<close>

definition getItem :: "'p script \<Rightarrow> string option \<Rightarrow> jsval" where
  "getItem sc stored =
     (case stored of
        None \<Rightarrow> JNull
      | Some txt \<Rightarrow> (case JSON_parse sc txt of Some v \<Rightarrow> v | None \<Rightarrow> JStr txt))"

text \<open>\<^verbatim>\<open>setItem(key, value)\<close> rejects when \<^verbatim>\<open>AsyncStorage.setItem\<close> does, and then
  stores nothing. One definition for each key the services write.\<close>

definition setItem_offline_data ::
  "'p script \<Rightarrow> 'p QueuedRequest list \<Rightarrow> 'p sys \<Rightarrow> (error + unit) \<times> 'p sys" where
  "setItem_offline_data sc v y =
     (let y1 = y\<lparr>nSetItem := Suc (nSetItem y)\<rparr>
      in if setItemRejects sc (nSetItem y) then (Inl StorageError, y1)
         else (Inr (), y1\<lparr>offline_data := Some v\<rparr>))"

definition setItem_auth_token ::
  "'p script \<Rightarrow> jsval \<Rightarrow> 'p sys \<Rightarrow> (error + unit) \<times> 'p sys" where
  "setItem_auth_token sc v y =
     (let y1 = y\<lparr>nSetItem := Suc (nSetItem y)\<rparr>
      in if setItemRejects sc (nSetItem y) then (Inl StorageError, y1)
         else (Inr (), y1\<lparr>auth_token := Some (setItem_text v)\<rparr>))"

subsection \<open>\<^verbatim>\<open>OfflineQueueService\<close>: the methods that call nothing recursive\<close>

text \<open>\<^verbatim>\<open>persistQueue\<close>: \<^verbatim>\<open>try { await storageService.setItem(OFFLINE_DATA, this.queue) }
  catch (error) { console.error(...) }\<close>. The catch block returns normally.\<close>

definition persistQueue :: "'p script \<Rightarrow> 'p sys \<Rightarrow> (error + unit) \<times> 'p sys" where
  "persistQueue sc y =
     (case setItem_offline_data sc (contents y) y of
        (Inr u, y1) \<Rightarrow> (Inr (), y1)
      | (Inl e, y1) \<Rightarrow> (Inr (), y1))"

text \<open>\<^verbatim>\<open>getQueue() { return [...this.queue] }\<close>: a new array holding the same
  references. The result is the address of the new array.\<close>

definition getQueue :: "'p sys \<Rightarrow> addr \<times> 'p sys" where
  "getQueue y =
     (nextAddr y, y\<lparr>arrs := (arrs y)(nextAddr y := queue y), nextAddr := Suc (nextAddr y)\<rparr>)"

text \<open>\<^verbatim>\<open>clearQueue\<close>: \<^verbatim>\<open>this.queue = []; await this.persistQueue()\<close>\<close>

definition clearQueue :: "'p script \<Rightarrow> 'p sys \<Rightarrow> (error + unit) \<times> 'p sys" where
  "clearQueue sc y =
     persistQueue sc
       (y\<lparr>arrs := (arrs y)(nextAddr y := []), queueRef := nextAddr y,
          nextAddr := Suc (nextAddr y)\<rparr>)"

subsection \<open>\<^verbatim>\<open>ApiService\<close>: the parts of the interceptors that call nothing recursive\<close>

text \<open>The request interceptor (lines 27 to 33): \<^verbatim>\<open>token = await
  storageService.getItem(AUTH_TOKEN); if (token) config.headers.Authorization =
  `Bearer ${token}`\<close>.\<close>

definition bearer :: "string \<Rightarrow> string" where
  "bearer t = ''Bearer '' @ t"

definition requestInterceptor ::
  "'p script \<Rightarrow> 'p sys \<Rightarrow> 'p AxiosRequestConfig \<Rightarrow> 'p AxiosRequestConfig" where
  "requestInterceptor sc y cfg =
     (let token = getItem sc (auth_token y)
      in if truthy token then cfg\<lparr>authorization := Some (bearer (String_of token))\<rparr> else cfg)"

definition clearAuthAndRedirect :: "'p sys \<Rightarrow> 'p sys" where
  "clearAuthAndRedirect y = y\<lparr>auth_token := None, refresh_token := None\<rparr>"

text \<open>The response interceptor on a 401, up to the point where it waits for the answer
  to its refresh (lines 43 to 47): \<^verbatim>\<open>refreshToken = await
  storageService.getItem(REFRESH_TOKEN); if (refreshToken) response = await
  axios.post(.., { refreshToken })\<close>. The result is the answer that the post will get,
  or \<open>None\<close> when nothing was posted.\<close>

definition refreshBegin :: "'p script \<Rightarrow> 'p sys \<Rightarrow> refresh_result option \<times> 'p sys" where
  "refreshBegin sc y =
     (let refreshToken = getItem sc (refresh_token y)
      in if truthy refreshToken then
           (Some (refreshPost sc (length (refreshed y)) refreshToken),
            y\<lparr>refreshed := refreshed y @ [refreshToken]\<rparr>)
         else (None, y))"

text \<open>From the answer to the refresh on (lines 47 to 64): the result is \<open>Some t\<close> when
  the interceptor goes on to retry with the new token \<open>t\<close>, and \<open>None\<close> when it falls
  through to \<^verbatim>\<open>clearAuthAndRedirect\<close> (twice when the \<^verbatim>\<open>catch\<close> block ran).\<close>

definition refreshEnd :: "'p script \<Rightarrow> refresh_result \<Rightarrow> 'p sys \<Rightarrow> jsval option \<times> 'p sys" where
  "refreshEnd sc ans y =
     (case ans of
        RefreshRejected \<Rightarrow> (None, clearAuthAndRedirect (clearAuthAndRedirect y))
      | RefreshResolved t \<Rightarrow>
          if truthy t then
            (case setItem_auth_token sc t y of
               (Inl e, y2) \<Rightarrow> (None, clearAuthAndRedirect (clearAuthAndRedirect y2))
             | (Inr u, y2) \<Rightarrow> (Some t, y2))
          else (None, clearAuthAndRedirect y))"

text \<open>Lines 43 to 64 in one piece.\<close>

definition refreshAttempt :: "'p script \<Rightarrow> 'p sys \<Rightarrow> jsval option \<times> 'p sys" where
  "refreshAttempt sc y =
     (case refreshBegin sc y of
        (None, y1) \<Rightarrow> (None, clearAuthAndRedirect y1)
      | (Some ans, y1) \<Rightarrow> refreshEnd sc ans y1)"

subsection \<open>The calls that reach each other\<close>

text \<open>
  \<^verbatim>\<open>processQueue\<close> calls the axios instance, whose response interceptor calls
  \<^verbatim>\<open>enqueueRequest\<close> and the instance again (the retry after a refresh);
  \<^verbatim>\<open>enqueueRequest\<close> calls \<^verbatim>\<open>initialize\<close> and \<^verbatim>\<open>processQueue\<close>. The retry has no bound
  in the source (a server that answers 401 to every request, and a refresh endpoint that
  always succeeds), so the calls are one partial function: not returning is \<open>None\<close>.
  \<open>ApiRequest\<close> is the request interceptor and the adapter; \<open>ResponseRejected\<close> is the
  rejection handler of the response interceptor, a call of its own so that a request can
  be sent while the answer to another has not been handled yet.
\<close>

datatype 'p call =
    Initialize
  | HandleConnectivityChange bool
  | EnqueueRequest "'p AxiosRequestConfig"
  | ProcessQueue
  | DrainLoop nat nat
  | ApiRequest "'p AxiosRequestConfig"
  | ResponseRejected "'p AxiosRequestConfig" http_result

partial_function (option) exec ::
  "'p script \<Rightarrow> 'p call \<Rightarrow> 'p sys \<Rightarrow> ((error + val) \<times> 'p sys) option"
where
  "exec sc c y =
    (case c of
       Initialize \<Rightarrow>  \<comment> \<open>offlineQueueService.ts, lines 25 to 42\<close>
         if isInitialized y then Some (Inr Unit, y)
         else
           (let y1 = (case offline_data y of None \<Rightarrow> y | Some es \<Rightarrow> load_queue es y);
                y2 = y1\<lparr>listeners := List.insert QueueListener (listeners y1)\<rparr>
            in Option.bind (exec sc (HandleConnectivityChange (connected y2)) y2)
                 (\<lambda>r. Some (Inr Unit, (snd r)\<lparr>isInitialized := True\<rparr>)))
     | HandleConnectivityChange b \<Rightarrow>  \<comment> \<open>lines 47 to 51\<close>
         if b \<and> queue y \<noteq> [] then
           Option.bind (exec sc ProcessQueue y) (\<lambda>r. Some (Inr Unit, snd r))
         else Some (Inr Unit, y)
     | EnqueueRequest cfg \<Rightarrow>  \<comment> \<open>lines 57 to 74\<close>
         Option.bind (exec sc Initialize y) (\<lambda>r0.
           case fst r0 of
             Inl e \<Rightarrow> Some (Inl e, snd r0)
           | Inr v \<Rightarrow>
               (let t1 = Date_now sc (snd r0);
                    t2 = Date_now sc (snd t1);
                    y4 = push_request
                           \<lparr>ident = toString (fst t1), config = cfg, timestamp = fst t2\<rparr>
                           (snd t2);
                    p = persistQueue sc y4
                in case fst p of
                     Inl e \<Rightarrow> Some (Inl e, snd p)
                   | Inr u \<Rightarrow>
                       (let q = isConnected sc (snd p)
                        in case fst q of
                             Inl e \<Rightarrow> Some (Inl e, snd q)
                           | Inr b \<Rightarrow>
                               if b then
                                 Option.bind (exec sc ProcessQueue (snd q))
                                   (\<lambda>r. Some (Inr Unit, snd r))
                               else Some (Inr Unit, snd q))))
     | ProcessQueue \<Rightarrow>  \<comment> \<open>lines 79 to 117; the loop is \<open>DrainLoop\<close>\<close>
         if isProcessing y \<or> queue y = [] then Some (Inr Unit, y)
         else
           (let q = isConnected sc (y\<lparr>isProcessing := True\<rparr>)
            in case fst q of
                 Inl e \<Rightarrow> Some (Inr Unit, (snd q)\<lparr>isProcessing := False\<rparr>)
               | Inr b \<Rightarrow>
                   if \<not> b then Some (Inr Unit, (snd q)\<lparr>isProcessing := False\<rparr>)
                   else
                     Option.bind (exec sc (DrainLoop 0 (length (queue (snd q)))) (snd q))
                       (\<lambda>r. case fst r of
                              Inl e \<Rightarrow> Some (Inr Unit, (snd r)\<lparr>isProcessing := False\<rparr>)
                            | Inr v \<Rightarrow>
                                Some (Inr Unit,
                                  (snd (persistQueue sc (snd r)))\<lparr>isProcessing := False\<rparr>)))
     | DrainLoop i n \<Rightarrow>  \<comment> \<open>lines 93 to 109, from the test \<^verbatim>\<open>i < originalQueueLength\<close>\<close>
         if i < n then
           (case queue y of
              [] \<Rightarrow> Some (Inl TypeError, y)  \<comment> \<open>\<^verbatim>\<open>request\<close> is \<^verbatim>\<open>undefined\<close>\<close>
            | a # as \<Rightarrow>
                (let cfg = config (objs y a)
                 in Option.bind
                      (exec sc (ApiRequest cfg) (y\<lparr>dispatched := dispatched y @ [cfg]\<rparr>))
                      (\<lambda>r. case fst r of
                             Inr v \<Rightarrow>
                               exec sc (DrainLoop (Suc i) n)
                                 (set_queue (tl (queue (snd r))) (snd r))
                           | Inl e \<Rightarrow>
                               Some (Inr Unit,
                                 (case queue (snd r) of
                                    [] \<Rightarrow> snd r
                                  | f # fs \<Rightarrow> set_queue (fs @ [f]) (snd r))))))
         else Some (Inr Unit, y)
     | ApiRequest cfg \<Rightarrow>  \<comment> \<open>apiService.ts, lines 26 to 39: a call of \<^verbatim>\<open>this.api\<close>\<close>
         (let cfg1 = requestInterceptor sc y cfg;
              ans = adapter sc (length (sent y)) cfg1;
              y1 = y\<lparr>sent := sent y @ [cfg1]\<rparr>
          in case ans of
               Status st \<Rightarrow>
                 if 200 \<le> st \<and> st < 300 then Some (Inr (Response st), y1)
                 else exec sc (ResponseRejected cfg1 ans) y1
             | NoResponse \<Rightarrow> exec sc (ResponseRejected cfg1 ans) y1
             | NoRequest \<Rightarrow> exec sc (ResponseRejected cfg1 ans) y1)
     | ResponseRejected cfg1 ans \<Rightarrow>  \<comment> \<open>lines 40 to 79, for the error \<open>ans\<close> of the request \<open>cfg1\<close>\<close>
         (case ans of
            Status st \<Rightarrow>
              if st = 401 then
                (let a = refreshAttempt sc y
                 in case fst a of
                      Some t \<Rightarrow>
                        exec sc (ApiRequest (cfg1\<lparr>authorization := Some (bearer (String_of t))\<rparr>)) (snd a)
                    | None \<Rightarrow> Some (Inl (HttpError 401), snd a))
              else Some (Inl (HttpError st), y)
          | NoResponse \<Rightarrow>
              (let q = isConnected sc y
               in case fst q of
                    Inl e \<Rightarrow> Some (Inl e, snd q)
                  | Inr b \<Rightarrow>
                      if \<not> b then
                        Option.bind (exec sc (EnqueueRequest cfg1) (snd q))
                          (\<lambda>r. Some (Inl RequestQueued, snd r))
                      else Some (Inl NetworkError, snd q))
          | NoRequest \<Rightarrow> Some (Inl SetupError, y)))"

declare exec.simps [code]

subsection \<open>Vocabulary for the statements\<close>

text \<open>The answer of the adapter makes the axios promise resolve (the default
  \<^verbatim>\<open>validateStatus\<close>: a status from 200 to 299).\<close>

definition resolves :: "http_result \<Rightarrow> bool" where
  "resolves r =
     (case r of Status st \<Rightarrow> 200 \<le> st \<and> st < 300 | NoResponse \<Rightarrow> False | NoRequest \<Rightarrow> False)"

text \<open>The state in which a drain pass that starts in \<open>y\<close> dispatches the head entry,
  once its probe has found the device connected; and that dispatch.\<close>

definition atHeadDispatch :: "'p sys \<Rightarrow> 'p sys" where
  "atHeadDispatch y =
     y\<lparr>isProcessing := True, nFetch := Suc (nFetch y), connected := True,
       dispatched := dispatched y @ [config (objs y (hd (queue y)))]\<rparr>"

definition headDispatch :: "'p script \<Rightarrow> 'p sys \<Rightarrow> ((error + val) \<times> 'p sys) option" where
  "headDispatch sc y = exec sc (ApiRequest (config (objs y (hd (queue y))))) (atHeadDispatch y)"

text \<open>What \<^verbatim>\<open>processQueue\<close> does from its first \<^verbatim>\<open>await\<close> on (lines 84 to 116), in
  the state \<open>y1\<close> reached once the flag is set.\<close>

definition processQueue_rest :: "'p script \<Rightarrow> 'p sys \<Rightarrow> ((error + val) \<times> 'p sys) option" where
  "processQueue_rest sc y1 =
     (let q = isConnected sc y1
      in case fst q of
           Inl e \<Rightarrow> Some (Inr Unit, (snd q)\<lparr>isProcessing := False\<rparr>)
         | Inr b \<Rightarrow>
             if \<not> b then Some (Inr Unit, (snd q)\<lparr>isProcessing := False\<rparr>)
             else
               Option.bind (exec sc (DrainLoop 0 (length (queue (snd q)))) (snd q))
                 (\<lambda>r. case fst r of
                        Inl e \<Rightarrow> Some (Inr Unit, (snd r)\<lparr>isProcessing := False\<rparr>)
                      | Inr v \<Rightarrow>
                          Some (Inr Unit,
                            (snd (persistQueue sc (snd r)))\<lparr>isProcessing := False\<rparr>)))"

text \<open>Two overlapping calls of \<^verbatim>\<open>processQueue\<close>: the second call is made while the
  first waits at its first \<^verbatim>\<open>await\<close>, and runs before the first goes on.\<close>

definition overlappingDrains :: "'p script \<Rightarrow> 'p sys \<Rightarrow> ((error + val) \<times> 'p sys) option" where
  "overlappingDrains sc y =
     (if isProcessing y \<or> queue y = [] then Some (Inr Unit, y)
      else Option.bind (exec sc ProcessQueue (y\<lparr>isProcessing := True\<rparr>))
             (\<lambda>r. processQueue_rest sc (snd r)))"

text \<open>The call left the queue, the heap and the flags of the queue service as they were.\<close>

definition queue_untouched :: "'p sys \<Rightarrow> 'p sys \<Rightarrow> bool" where
  "queue_untouched y y' =
     (arrs y' = arrs y \<and> queueRef y' = queueRef y \<and> objs y' = objs y \<and>
      nextAddr y' = nextAddr y \<and> isProcessing y' = isProcessing y \<and>
      isInitialized y' = isInitialized y \<and> dispatched y' = dispatched y \<and>
      offline_data y' = offline_data y)"

text \<open>The two halves of a call of the axios instance: the request interceptor and the
  adapter, after which the request is in flight with its answer fixed by the script; and
  the response interceptor on that answer (a 2xx answer is passed through).\<close>

definition sendRequest ::
  "'p script \<Rightarrow> 'p AxiosRequestConfig \<Rightarrow> 'p sys
     \<Rightarrow> ('p AxiosRequestConfig \<times> http_result) \<times> 'p sys" where
  "sendRequest sc cfg y =
     (let cfg1 = requestInterceptor sc y cfg
      in ((cfg1, adapter sc (length (sent y)) cfg1), y\<lparr>sent := sent y @ [cfg1]\<rparr>))"

definition handleAnswer ::
  "'p script \<Rightarrow> 'p AxiosRequestConfig \<times> http_result \<Rightarrow> 'p sys
     \<Rightarrow> ((error + val) \<times> 'p sys) option" where
  "handleAnswer sc ca y =
     (case snd ca of
        Status st \<Rightarrow>
          if 200 \<le> st \<and> st < 300 then Some (Inr (Response st), y)
          else exec sc (ResponseRejected (fst ca) (snd ca)) y
      | NoResponse \<Rightarrow> exec sc (ResponseRejected (fst ca) (snd ca)) y
      | NoRequest \<Rightarrow> exec sc (ResponseRejected (fst ca) (snd ca)) y)"

text \<open>The response interceptor on a 401 from the answer to its refresh on, for the
  request \<open>cfg1\<close>: \<open>posted\<close> is what \<open>refreshBegin\<close> returned.\<close>

definition handle401End ::
  "'p script \<Rightarrow> 'p AxiosRequestConfig \<Rightarrow> refresh_result option \<Rightarrow> 'p sys
     \<Rightarrow> ((error + val) \<times> 'p sys) option" where
  "handle401End sc cfg1 posted y =
     (case posted of
        None \<Rightarrow> Some (Inl (HttpError 401), clearAuthAndRedirect y)
      | Some ans \<Rightarrow>
          (let a = refreshEnd sc ans y
           in case fst a of
                Some t \<Rightarrow>
                  exec sc (ApiRequest (cfg1\<lparr>authorization := Some (bearer (String_of t))\<rparr>)) (snd a)
              | None \<Rightarrow> Some (Inl (HttpError 401), snd a)))"




text \<open>Two calls of \<^verbatim>\<open>enqueueRequest\<close>, one after the other.\<close>

definition enqueueTwice ::
  "'p script \<Rightarrow> 'p AxiosRequestConfig \<Rightarrow> 'p AxiosRequestConfig \<Rightarrow> 'p sys
     \<Rightarrow> ((error + val) \<times> 'p sys) option" where
  "enqueueTwice sc c1 c2 y =
     Option.bind (exec sc (EnqueueRequest c1) y) (\<lambda>r. exec sc (EnqueueRequest c2) (snd r))"

subsection \<open>Callers of \<^verbatim>\<open>getQueue\<close>\<close>

text \<open>What a caller can do with the array it got: replace the elements of that array
  (\<^verbatim>\<open>push\<close>, \<^verbatim>\<open>shift\<close>, \<^verbatim>\<open>reverse\<close>, \<^verbatim>\<open>splice\<close>, an indexed store: each leaves some list
  \<open>xs\<close> in the array), and assign to a field of an object it reaches through the array.\<close>

definition caller_array_write :: "addr \<Rightarrow> addr list \<Rightarrow> 'p sys \<Rightarrow> 'p sys" where
  "caller_array_write r xs y = y\<lparr>arrs := (arrs y)(r := xs)\<rparr>"

definition caller_object_write :: "addr \<Rightarrow> 'p QueuedRequest \<Rightarrow> 'p sys \<Rightarrow> 'p sys" where
  "caller_object_write a e y = y\<lparr>objs := (objs y)(a := e)\<rparr>"

subsection \<open>The \<^verbatim>\<open>offline\<close> slice\<close>

text \<open>A Redux action: its \<^verbatim>\<open>type\<close> and whether \<^verbatim>\<open>meta?.processOffline\<close> is truthy; or the
  notice the middleware forwards, \<^verbatim>\<open>{type: t + '_QUEUED', meta: {originalAction}}\<close>.\<close>

datatype action = Action string bool | Queued string action

fun atype :: "action \<Rightarrow> string" where
  "atype (Action t b) = t"
| "atype (Queued t a) = t"

fun processOffline :: "action \<Rightarrow> bool" where
  "processOffline (Action t b) = b"
| "processOffline (Queued t a) = False"

record OfflineAction =
  pa_action :: action
  pa_timestamp :: int
  attempts :: "nat option"

record OfflineState =
  isOnline :: bool
  pendingActions :: "OfflineAction list"
  lastSyncTimestamp :: "int option"

definition initialState :: OfflineState where
  "initialState = \<lparr>isOnline = True, pendingActions = [], lastSyncTimestamp = None\<rparr>"

record sync_result =
  success :: bool
  res_action :: action

text \<open>\<^verbatim>\<open>Array.prototype.findIndex\<close> (\<open>-1\<close> when no element satisfies the predicate) and
  \<^verbatim>\<open>filter((_, index) => ...)\<close>, each with the running index.\<close>

fun findIndexFrom :: "('a \<Rightarrow> bool) \<Rightarrow> nat \<Rightarrow> 'a list \<Rightarrow> int" where
  "findIndexFrom p i [] = - 1"
| "findIndexFrom p i (x # xs) = (if p x then int i else findIndexFrom p (Suc i) xs)"

definition findIndex :: "('a \<Rightarrow> bool) \<Rightarrow> 'a list \<Rightarrow> int" where
  "findIndex p xs = findIndexFrom p 0 xs"

fun filterFrom :: "(int \<Rightarrow> bool) \<Rightarrow> nat \<Rightarrow> 'a list \<Rightarrow> 'a list" where
  "filterFrom p i [] = []"
| "filterFrom p i (x # xs) =
     (if p (int i) then x # filterFrom p (Suc i) xs else filterFrom p (Suc i) xs)"

definition filterByIndex :: "(int \<Rightarrow> bool) \<Rightarrow> 'a list \<Rightarrow> 'a list" where
  "filterByIndex p xs = filterFrom p 0 xs"

definition setOnlineStatus :: "bool \<Rightarrow> OfflineState \<Rightarrow> OfflineState" where
  "setOnlineStatus b st = st\<lparr>isOnline := b\<rparr>"

definition markOfflineAction :: "OfflineAction \<Rightarrow> OfflineState \<Rightarrow> OfflineState" where
  "markOfflineAction p st = st\<lparr>pendingActions := pendingActions st @ [p\<lparr>attempts := Some 0\<rparr>]\<rparr>"

definition removePendingAction :: "int \<Rightarrow> OfflineState \<Rightarrow> OfflineState" where
  "removePendingAction i st =
     st\<lparr>pendingActions := filterByIndex (\<lambda>index. index \<noteq> i) (pendingActions st)\<rparr>"

definition clearPendingActions :: "OfflineState \<Rightarrow> OfflineState" where
  "clearPendingActions st = st\<lparr>pendingActions := []\<rparr>"

text \<open>The thunk \<^verbatim>\<open>syncOfflineData\<close>: its \<^verbatim>\<open>condition\<close>, then one result for each pending
  action, in order; \<open>ok k a\<close> tells whether the \<open>k\<close>-th \<^verbatim>\<open>dispatch(a).unwrap()\<close> resolves.\<close>

fun syncResults :: "(nat \<Rightarrow> action \<Rightarrow> bool) \<Rightarrow> nat \<Rightarrow> OfflineAction list \<Rightarrow> sync_result list" where
  "syncResults ok k [] = []"
| "syncResults ok k (pa # pas) =
     \<lparr>success = ok k (pa_action pa), res_action = pa_action pa\<rparr> # syncResults ok (Suc k) pas"

definition syncOfflineData :: "(nat \<Rightarrow> action \<Rightarrow> bool) \<Rightarrow> OfflineState \<Rightarrow> sync_result list option" where
  "syncOfflineData ok st =
     (if isOnline st \<and> pendingActions st \<noteq> [] then Some (syncResults ok 0 (pendingActions st))
      else None)"

text \<open>The reducer for \<^verbatim>\<open>syncOfflineData.fulfilled\<close>; \<open>now\<close> is what \<^verbatim>\<open>Date.now()\<close> returns.\<close>

definition successfulActionIndexes :: "sync_result list \<Rightarrow> OfflineAction list \<Rightarrow> int list" where
  "successfulActionIndexes rs pas =
     filter (\<lambda>index. index \<noteq> - 1)
       (map (\<lambda>r. findIndex (\<lambda>pa. atype (pa_action pa) = atype (res_action r)) pas)
          (filter success rs))"

definition syncOfflineData_fulfilled :: "sync_result list \<Rightarrow> int \<Rightarrow> OfflineState \<Rightarrow> OfflineState" where
  "syncOfflineData_fulfilled rs now st =
     st\<lparr>pendingActions :=
          filterByIndex (\<lambda>index. index \<notin> set (successfulActionIndexes rs (pendingActions st)))
            (pendingActions st),
        lastSyncTimestamp := Some now\<rparr>"

subsection \<open>\<^verbatim>\<open>offlineMiddleware\<close>\<close>

text \<open>The result is the action handed to \<^verbatim>\<open>next\<close>. \<^verbatim>\<open>store.dispatch(markOfflineAction(..))\<close>
  reaches the slice's reducer; the services are not called except for the probe.\<close>

definition offlineMiddleware ::
  "'p script \<Rightarrow> action \<Rightarrow> 'p sys \<times> OfflineState \<Rightarrow> (error + action) \<times> 'p sys \<times> OfflineState" where
  "offlineMiddleware sc a app =
     (if processOffline a then
        (let q = isConnected sc (fst app)
         in case fst q of
              Inl e \<Rightarrow> (Inl e, snd q, snd app)
            | Inr b \<Rightarrow>
                if \<not> b then
                  (let t = Date_now sc (snd q)
                   in (Inr (Queued (atype a @ ''_QUEUED'') a),
                       snd t,
                       markOfflineAction
                         \<lparr>pa_action = a, pa_timestamp = fst t, attempts = None\<rparr> (snd app)))
                else (Inr a, snd q, snd app))
      else (Inr a, app))"

text \<open>A run of the middleware over a list of actions, one after the other.\<close>

fun dispatchAll :: "'p script \<Rightarrow> action list \<Rightarrow> 'p sys \<times> OfflineState \<Rightarrow> 'p sys \<times> OfflineState" where
  "dispatchAll sc [] app = app"
| "dispatchAll sc (a # as) app = dispatchAll sc as (snd (offlineMiddleware sc a app))"

subsection \<open>Concrete inputs\<close>

definition clockIn :: "string AxiosRequestConfig" where
  "clockIn = \<lparr>payload = ''POST /visits/v1/clock-in'', authorization = None\<rparr>"

definition clockOut :: "string AxiosRequestConfig" where
  "clockOut = \<lparr>payload = ''POST /visits/v1/clock-out'', authorization = None\<rparr>"

definition entryA :: "string QueuedRequest" where
  "entryA = \<lparr>ident = ''1000'', config = clockIn, timestamp = 1000\<rparr>"

definition entryB :: "string QueuedRequest" where
  "entryB = \<lparr>ident = ''1001'', config = clockOut, timestamp = 1001\<rparr>"

text \<open>The service after its constructor ran on empty storage: an empty queue array at
  address 0.\<close>

definition sys0 :: "string sys" where
  "sys0 =
     \<lparr>queueRef = 0, isProcessing = False, isInitialized = True,
      arrs = (\<lambda>a. []), objs = (\<lambda>a. entryA), nextAddr = 1,
      connected = True, listeners = [QueueListener],
      auth_token = None, refresh_token = None, offline_data = None,
      nNow = 0, nFetch = 0, nSetItem = 0,
      dispatched = [], sent = [], refreshed = []\<rparr>"

text \<open>The queue \<open>[A, B]\<close>: objects at addresses 1 and 2.\<close>

definition sysAB :: "string sys" where
  "sysAB =
     sys0\<lparr>arrs := (\<lambda>a. [])(0 := [1, 2]),
          objs := (\<lambda>a. entryA)(2 := entryB),
          nextAddr := 3,
          offline_data := Some [entryA, entryB]\<rparr>"

text \<open>The script for \<^verbatim>\<open>JSON.parse\<close> in the inputs below. It is \<^verbatim>\<open>JSON.parse\<close> on the
  texts that these inputs store and that their runs come to store: the texts of this
  table, and the token texts (\<^verbatim>\<open>token0\<close>, \<^verbatim>\<open>refresh0\<close>, ...), which are not JSON and
  make it throw. No other text is parsed in these runs.\<close>

definition JSON_parse0 :: "string \<Rightarrow> jsval option" where
  "JSON_parse0 txt =
     (if txt = ''null'' then Some JNull
      else if txt = ''true'' then Some (JBool True)
      else if txt = ''false'' then Some (JBool False)
      else if txt = ''0'' then Some (JNum 0)
      else if txt = ''1e3'' then Some (JNum 1000)
      else None)"

definition script0 :: "string script" where
  "script0 =
     \<lparr>dateNow = (\<lambda>k. 2000),
      netInfoFetch = (\<lambda>k. FetchResolved (Some True)),
      adapter = (\<lambda>k c. Status 200),
      refreshPost = (\<lambda>k t. RefreshRejected),
      setItemRejects = (\<lambda>k. False),
      JSON_parse = JSON_parse0\<rparr>"

text \<open>The device is offline and the transport gets no response.\<close>

definition script_offline :: "string script" where
  "script_offline =
     script0\<lparr>netInfoFetch := (\<lambda>k. FetchResolved (Some False)), adapter := (\<lambda>k c. NoResponse)\<rparr>"

text \<open>Reachable at the first probe, unreachable afterwards; no response from then on.\<close>

definition script_drop :: "string script" where
  "script_drop =
     script0\<lparr>netInfoFetch := (\<lambda>k. FetchResolved (Some (k = 0))), adapter := (\<lambda>k c. NoResponse)\<rparr>"

text \<open>The server answers 500 to everything.\<close>

definition script_500 :: "string script" where
  "script_500 = script0\<lparr>adapter := (\<lambda>k c. Status 500)\<rparr>"

text \<open>Offline, and the storage write is rejected.\<close>

definition script_write_fails :: "string script" where
  "script_write_fails = script_offline\<lparr>setItemRejects := (\<lambda>k. True)\<rparr>"

text \<open>The probe itself fails.\<close>

definition script_probe_fails :: "string script" where
  "script_probe_fails = script0\<lparr>netInfoFetch := (\<lambda>k. FetchRejected)\<rparr>"

text \<open>The server answers 401 to the first two requests and 200 afterwards; every refresh
  returns a new token.\<close>

definition script_401 :: "string script" where
  "script_401 =
     script0\<lparr>adapter := (\<lambda>k c. if k < 2 then Status 401 else Status 200),
             refreshPost := (\<lambda>k t. RefreshResolved (JStr (''token'' @ digits (Suc k))))\<rparr>"


definition sysAuth :: "string sys" where
  "sysAuth = sys0\<lparr>auth_token := Some ''token0'', refresh_token := Some ''refresh0''\<rparr>"

text \<open>The stored refresh token is the text \<^verbatim>\<open>null\<close>; and the stored token is the text
  \<^verbatim>\<open>1e3\<close>.\<close>

definition sysNullRefresh :: "string sys" where
  "sysNullRefresh = sysAuth\<lparr>refresh_token := Some ''null''\<rparr>"

definition sysNumberToken :: "string sys" where
  "sysNumberToken = sys0\<lparr>auth_token := Some ''1e3''\<rparr>"

definition sendMessage :: action where
  "sendMessage = Action ''messages/sendMessage'' True"

definition pendingSend :: "int \<Rightarrow> OfflineAction" where
  "pendingSend t = \<lparr>pa_action = sendMessage, pa_timestamp = t, attempts = Some 0\<rparr>"

text \<open>Two pending records of one action type, and a sync pass in which every replay
  succeeds.\<close>

definition twoPending :: OfflineState where
  "twoPending = initialState\<lparr>pendingActions := [pendingSend 1000, pendingSend 1001]\<rparr>"

definition twoResults :: "sync_result list" where
  "twoResults = syncResults (\<lambda>k a. True) 0 (pendingActions twoPending)"

section \<open>The calls, one equation each\<close>

lemma exec_Initialize:
  "exec sc Initialize y =
     (if isInitialized y then Some (Inr Unit, y)
      else
        (let y1 = (case offline_data y of None \<Rightarrow> y | Some es \<Rightarrow> load_queue es y);
             y2 = y1\<lparr>listeners := List.insert QueueListener (listeners y1)\<rparr>
         in Option.bind (exec sc (HandleConnectivityChange (connected y2)) y2)
              (\<lambda>r. Some (Inr Unit, (snd r)\<lparr>isInitialized := True\<rparr>))))"
  by (subst exec.simps) simp

lemma exec_HandleConnectivityChange:
  "exec sc (HandleConnectivityChange b) y =
     (if b \<and> queue y \<noteq> [] then
        Option.bind (exec sc ProcessQueue y) (\<lambda>r. Some (Inr Unit, snd r))
      else Some (Inr Unit, y))"
  by (subst exec.simps) simp

lemma exec_EnqueueRequest:
  "exec sc (EnqueueRequest cfg) y =
     Option.bind (exec sc Initialize y) (\<lambda>r0.
       case fst r0 of
         Inl e \<Rightarrow> Some (Inl e, snd r0)
       | Inr v \<Rightarrow>
           (let t1 = Date_now sc (snd r0);
                t2 = Date_now sc (snd t1);
                y4 = push_request
                       \<lparr>ident = toString (fst t1), config = cfg, timestamp = fst t2\<rparr>
                       (snd t2);
                p = persistQueue sc y4
            in case fst p of
                 Inl e \<Rightarrow> Some (Inl e, snd p)
               | Inr u \<Rightarrow>
                   (let q = isConnected sc (snd p)
                    in case fst q of
                         Inl e \<Rightarrow> Some (Inl e, snd q)
                       | Inr b \<Rightarrow>
                           if b then
                             Option.bind (exec sc ProcessQueue (snd q))
                               (\<lambda>r. Some (Inr Unit, snd r))
                           else Some (Inr Unit, snd q))))"
  by (subst exec.simps) simp

lemma exec_ProcessQueue:
  "exec sc ProcessQueue y =
     (if isProcessing y \<or> queue y = [] then Some (Inr Unit, y)
      else
        (let q = isConnected sc (y\<lparr>isProcessing := True\<rparr>)
         in case fst q of
              Inl e \<Rightarrow> Some (Inr Unit, (snd q)\<lparr>isProcessing := False\<rparr>)
            | Inr b \<Rightarrow>
                if \<not> b then Some (Inr Unit, (snd q)\<lparr>isProcessing := False\<rparr>)
                else
                  Option.bind (exec sc (DrainLoop 0 (length (queue (snd q)))) (snd q))
                    (\<lambda>r. case fst r of
                           Inl e \<Rightarrow> Some (Inr Unit, (snd r)\<lparr>isProcessing := False\<rparr>)
                         | Inr v \<Rightarrow>
                             Some (Inr Unit,
                               (snd (persistQueue sc (snd r)))\<lparr>isProcessing := False\<rparr>))))"
  by (subst exec.simps) simp

lemma exec_DrainLoop:
  "exec sc (DrainLoop i n) y =
     (if i < n then
        (case queue y of
           [] \<Rightarrow> Some (Inl TypeError, y)
         | a # as \<Rightarrow>
             (let cfg = config (objs y a)
              in Option.bind
                   (exec sc (ApiRequest cfg) (y\<lparr>dispatched := dispatched y @ [cfg]\<rparr>))
                   (\<lambda>r. case fst r of
                          Inr v \<Rightarrow>
                            exec sc (DrainLoop (Suc i) n)
                              (set_queue (tl (queue (snd r))) (snd r))
                        | Inl e \<Rightarrow>
                            Some (Inr Unit,
                              (case queue (snd r) of
                                 [] \<Rightarrow> snd r
                               | f # fs \<Rightarrow> set_queue (fs @ [f]) (snd r))))))
      else Some (Inr Unit, y))"
  by (subst exec.simps) simp

lemma exec_ApiRequest:
  "exec sc (ApiRequest cfg) y =
     (let cfg1 = requestInterceptor sc y cfg;
          ans = adapter sc (length (sent y)) cfg1;
          y1 = y\<lparr>sent := sent y @ [cfg1]\<rparr>
      in case ans of
           Status st \<Rightarrow>
             if 200 \<le> st \<and> st < 300 then Some (Inr (Response st), y1)
             else exec sc (ResponseRejected cfg1 ans) y1
         | NoResponse \<Rightarrow> exec sc (ResponseRejected cfg1 ans) y1
         | NoRequest \<Rightarrow> exec sc (ResponseRejected cfg1 ans) y1)"
  by (subst exec.simps) simp

lemma exec_ResponseRejected:
  "exec sc (ResponseRejected cfg1 ans) y =
     (case ans of
        Status st \<Rightarrow>
          if st = 401 then
            (let a = refreshAttempt sc y
             in case fst a of
                  Some t \<Rightarrow>
                    exec sc (ApiRequest (cfg1\<lparr>authorization := Some (bearer (String_of t))\<rparr>)) (snd a)
                | None \<Rightarrow> Some (Inl (HttpError 401), snd a))
          else Some (Inl (HttpError st), y)
      | NoResponse \<Rightarrow>
          (let q = isConnected sc y
           in case fst q of
                Inl e \<Rightarrow> Some (Inl e, snd q)
              | Inr b \<Rightarrow>
                  if \<not> b then
                    Option.bind (exec sc (EnqueueRequest cfg1) (snd q))
                      (\<lambda>r. Some (Inl RequestQueued, snd r))
                  else Some (Inl NetworkError, snd q))
      | NoRequest \<Rightarrow> Some (Inl SetupError, y))"
  by (subst exec.simps) simp

section \<open>The single-flight guard of the drain\<close>

text \<open>
  Claim C4. \<^verbatim>\<open>processQueue\<close> called while a drain pass is running (the flag
  \<^verbatim>\<open>isProcessing\<close> is set) returns at its first line: it calls no dispatcher, probes
  nothing, and leaves the whole state, the queue and the logs of calls included, as it
  was. A second call that arrives during a pass therefore dispatches nothing.
\<close>

theorem processQueue_single_flight:
  "isProcessing y \<Longrightarrow> exec sc ProcessQueue y = Some (Inr Unit, y)"
  by (simp add: exec_ProcessQueue)

theorem processQueue_single_flight_witness:
  "isProcessing (sysAB\<lparr>isProcessing := True\<rparr>) \<and>
   exec script0 ProcessQueue (sysAB\<lparr>isProcessing := True\<rparr>)
     = Some (Inr Unit, sysAB\<lparr>isProcessing := True\<rparr>)"
  using processQueue_single_flight [of "sysAB\<lparr>isProcessing := True\<rparr>" script0]
  by simp

text \<open>Two overlapping calls make one pass: the outcome, the queue and the logs are those
  of a single call.\<close>

lemma exec_ProcessQueue_rest:
  "exec sc ProcessQueue y =
     (if isProcessing y \<or> queue y = [] then Some (Inr Unit, y)
      else processQueue_rest sc (y\<lparr>isProcessing := True\<rparr>))"
  by (simp add: exec_ProcessQueue processQueue_rest_def)

lemma overlappingDrains_one_pass: "overlappingDrains sc y = exec sc ProcessQueue y"
  by (simp add: overlappingDrains_def exec_ProcessQueue_rest [of sc y]
      exec_ProcessQueue [of sc "y\<lparr>isProcessing := True\<rparr>"])

text \<open>Likewise a call that arrives while the pass dispatches its head entry.\<close>

lemma processQueue_reentered_during_pass:
  "exec sc ProcessQueue (atHeadDispatch y) = Some (Inr Unit, atHeadDispatch y)"
  by (simp add: exec_ProcessQueue atHeadDispatch_def)

section \<open>The connectivity probe\<close>

text \<open>
  Claim C9. \<^verbatim>\<open>isConnected\<close> never throws: whatever \<^verbatim>\<open>NetInfo.fetch\<close> does, the
  result is a boolean; and when the probe rejects, the result is the cached field
  \<^verbatim>\<open>connected\<close>, which is left as it was.
\<close>

theorem isConnected_never_throws:
  "(\<exists>b. fst (isConnected sc y) = Inr b) \<and>
   (netInfoFetch sc (nFetch y) = FetchRejected \<longrightarrow>
      isConnected sc y = (Inr (connected y), y\<lparr>nFetch := Suc (nFetch y)\<rparr>))"
  by (simp add: isConnected_def Let_def split: fetch_result.split)

theorem isConnected_never_throws_witness:
  "netInfoFetch script_probe_fails (nFetch sys0) = FetchRejected \<and>
   isConnected script_probe_fails sys0
     = (Inr (connected sys0), sys0\<lparr>nFetch := Suc (nFetch sys0)\<rparr>)"
  using isConnected_never_throws [of script_probe_fails sys0]
  by (simp add: script_probe_fails_def script0_def JSON_parse0_def)

section \<open>A drain pass\<close>

subsection \<open>A dispatch that resolves, and the loop over a queue of such dispatches\<close>

lemma exec_ApiRequest_2xx:
  assumes "resolves (adapter sc (length (sent y)) (requestInterceptor sc y cfg))"
  shows "\<exists>st. exec sc (ApiRequest cfg) y
           = Some (Inr (Response st), y\<lparr>sent := sent y @ [requestInterceptor sc y cfg]\<rparr>)"
  using assms by (auto simp add: exec_ApiRequest Let_def resolves_def split: http_result.splits)

lemma requestInterceptor_cong:
  "auth_token z = auth_token y \<Longrightarrow> requestInterceptor sc z = requestInterceptor sc y"
  by (rule ext) (simp add: requestInterceptor_def getItem_def)

lemma drain_all_ok:
  "qs = queue y \<Longrightarrow> i + length qs = n \<Longrightarrow>
   (\<forall>j < length qs.
       resolves (adapter sc (length (sent y) + j) (requestInterceptor sc y (config (objs y (qs ! j)))))) \<Longrightarrow>
   exec sc (DrainLoop i n) y
     = Some (Inr Unit,
         y\<lparr>arrs := (arrs y)(queueRef y := []),
           dispatched := dispatched y @ map (\<lambda>a. config (objs y a)) qs,
           sent := sent y @ map (\<lambda>a. requestInterceptor sc y (config (objs y a))) qs\<rparr>)"
proof (induction qs arbitrary: y i)
  case Nil
  then have "(arrs y)(queueRef y := []) = arrs y"
    by (simp add: queue_def fun_upd_idem_iff)
  with Nil show ?case
    by (simp add: exec_DrainLoop)
next
  case (Cons a as)
  let ?cfg = "config (objs y a)"
  let ?y0 = "y\<lparr>dispatched := dispatched y @ [?cfg]\<rparr>"
  let ?y1 = "?y0\<lparr>sent := sent y @ [requestInterceptor sc y ?cfg]\<rparr>"
  let ?z = "set_queue as ?y1"
  have q: "queue y = a # as" using Cons.prems(1) by simp
  have lt: "i < n" using Cons.prems(2) by simp
  have "resolves (adapter sc (length (sent y) + 0) (requestInterceptor sc y (config (objs y ((a # as) ! 0)))))"
    using Cons.prems(3) by blast
  then have "resolves (adapter sc (length (sent ?y0)) (requestInterceptor sc ?y0 ?cfg))"
    by (simp add: requestInterceptor_def getItem_def)
  from exec_ApiRequest_2xx [OF this]
  obtain st where api: "exec sc (ApiRequest ?cfg) ?y0 = Some (Inr (Response st), ?y1)"
    by (auto simp add: requestInterceptor_def getItem_def)
  have step: "exec sc (DrainLoop i n) y = exec sc (DrainLoop (Suc i) n) ?z"
    using q lt api by (simp add: exec_DrainLoop Let_def queue_def set_queue_def)
  have zq: "as = queue ?z" by (simp add: queue_def set_queue_def)
  have zn: "Suc i + length as = n" using Cons.prems(2) by simp
  have zh: "\<forall>j < length as.
       resolves (adapter sc (length (sent ?z) + j) (requestInterceptor sc ?z (config (objs ?z (as ! j)))))"
  proof (intro allI impI)
    fix j assume "j < length as"
    then have "resolves (adapter sc (length (sent y) + Suc j)
                 (requestInterceptor sc y (config (objs y ((a # as) ! Suc j)))))"
      using Cons.prems(3) by (metis Suc_less_eq length_Cons)
    then show "resolves (adapter sc (length (sent ?z) + j)
                 (requestInterceptor sc ?z (config (objs ?z (as ! j)))))"
      by (simp add: set_queue_def requestInterceptor_def getItem_def)
  qed
  show ?case
    unfolding step
    by (subst Cons.IH [OF zq zn zh])
       (simp add: set_queue_def requestInterceptor_def getItem_def)
qed


subsection \<open>What a dispatch leaves alone unless the interceptor queued the request\<close>

lemma queue_untouched_refl: "queue_untouched y y"
  by (simp add: queue_untouched_def)

lemma queue_untouched_trans:
  "queue_untouched y y' \<Longrightarrow> queue_untouched y' y'' \<Longrightarrow> queue_untouched y y''"
  by (simp add: queue_untouched_def)

lemma refreshAttempt_untouched: "queue_untouched y (snd (refreshAttempt sc y))"
  by (simp add: refreshAttempt_def refreshBegin_def refreshEnd_def queue_untouched_def
      clearAuthAndRedirect_def setItem_auth_token_def Let_def
      split: option.split refresh_result.split)

lemma isConnected_untouched: "queue_untouched y (snd (isConnected sc y))"
  by (simp add: isConnected_def queue_untouched_def Let_def split: fetch_result.split)

lemma ApiRequest_untouched_aux:
  assumes "exec sc0 c0 y0 = Some r0"
  shows "(\<forall>cfg. c0 = ApiRequest cfg \<longrightarrow> fst r0 \<noteq> Inl RequestQueued \<longrightarrow>
            queue_untouched y0 (snd r0)) \<and>
         (\<forall>cfg ans. c0 = ResponseRejected cfg ans \<longrightarrow> fst r0 \<noteq> Inl RequestQueued \<longrightarrow>
            queue_untouched y0 (snd r0))"
proof (rule exec.raw_induct
    [where P = "\<lambda>sc c y r.
        (\<forall>cfg. c = ApiRequest cfg \<longrightarrow> fst r \<noteq> Inl RequestQueued \<longrightarrow>
           queue_untouched y (snd r)) \<and>
        (\<forall>cfg ans. c = ResponseRejected cfg ans \<longrightarrow> fst r \<noteq> Inl RequestQueued \<longrightarrow>
           queue_untouched y (snd r))", OF _ assms], goal_cases)
  case (1 exec' sc c y r)
  show ?case
  proof (intro conjI allI impI)
    fix cfg
    assume c: "c = ApiRequest cfg" and nq: "fst r \<noteq> Inl RequestQueued"
    let ?cfg1 = "requestInterceptor sc y cfg"
    let ?ans = "adapter sc (length (sent y)) ?cfg1"
    let ?y1 = "y\<lparr>sent := sent y @ [?cfg1]\<rparr>"
    have y1: "queue_untouched y ?y1" by (simp add: queue_untouched_def)
    show "queue_untouched y (snd r)"
    proof (cases "resolves ?ans")
      case True
      with 1(2) c y1 show ?thesis
        by (auto simp add: Let_def resolves_def split: http_result.splits)
    next
      case False
      with 1(2) c have "exec' sc (ResponseRejected ?cfg1 ?ans) ?y1 = Some r"
        by (auto simp add: Let_def resolves_def split: http_result.splits if_splits)
      from 1(1) [OF this] nq have "queue_untouched ?y1 (snd r)" by blast
      with y1 show ?thesis using queue_untouched_trans by blast
    qed
  next
    fix cfg1 ans
    assume c: "c = ResponseRejected cfg1 ans" and nq: "fst r \<noteq> Inl RequestQueued"
    show "queue_untouched y (snd r)"
    proof (cases ans)
      case (Status st)
      show ?thesis
      proof (cases "st = 401")
        case False
        with 1(2) c Status show ?thesis by (auto simp add: queue_untouched_refl)
      next
        case True
        have ra: "queue_untouched y (snd (refreshAttempt sc y))"
          by (rule refreshAttempt_untouched)
        show ?thesis
        proof (cases "fst (refreshAttempt sc y)")
          case None
          with 1(2) c Status True ra show ?thesis by (auto simp add: Let_def)
        next
          case (Some t)
          with 1(2) c Status True
          have "exec' sc (ApiRequest (cfg1\<lparr>authorization := Some (bearer (String_of t))\<rparr>))
                  (snd (refreshAttempt sc y)) = Some r"
            by (auto simp add: Let_def)
          from 1(1) [OF this] nq
          have "queue_untouched (snd (refreshAttempt sc y)) (snd r)" by blast
          with ra show ?thesis using queue_untouched_trans by blast
        qed
      qed
    next
      case NoResponse
      have ic: "queue_untouched y (snd (isConnected sc y))"
        by (rule isConnected_untouched)
      from 1(2) c NoResponse nq ic show ?thesis
        by (auto simp add: Let_def bind_eq_Some_conv split: sum.splits if_splits)
    next
      case NoRequest
      with 1(2) c show ?thesis by (auto simp add: queue_untouched_refl)
    qed
  qed
qed

lemma ApiRequest_untouched:
  "exec sc (ApiRequest cfg) y = Some (r, y') \<Longrightarrow> r \<noteq> Inl RequestQueued \<Longrightarrow> queue_untouched y y'"
  using ApiRequest_untouched_aux [of sc "ApiRequest cfg" y "(r, y')"] by simp

subsection \<open>Every dispatch succeeds\<close>

text \<open>
  Claim C2. A drain pass over a queue of \<open>N\<close> entries in which every dispatch
  succeeds (the pass starts, its probe finds the device connected, and the adapter answers
  the \<open>j\<close>-th request of the pass with a 2xx status) calls the dispatcher exactly
  \<open>N\<close> times, once for each entry and in queue order, and leaves the queue empty.
\<close>

theorem drain_all_succeed:
  assumes np: "\<not> isProcessing y"
    and probe: "netInfoFetch sc (nFetch y) = FetchResolved (Some True)"
    and ok: "\<forall>j < length (queue y).
               resolves (adapter sc (length (sent y) + j)
                 (requestInterceptor sc y (config (objs y (queue y ! j)))))"
  shows "\<exists>y'. exec sc ProcessQueue y = Some (Inr Unit, y') \<and>
           queue y' = [] \<and>
           dispatched y' = dispatched y @ map (\<lambda>a. config (objs y a)) (queue y) \<and>
           sent y' = sent y @ map (\<lambda>a. requestInterceptor sc y (config (objs y a))) (queue y) \<and>
           \<not> isProcessing y'"
proof (cases "queue y = []")
  case True
  with np show ?thesis by (simp add: exec_ProcessQueue)
next
  case False
  let ?y2 = "y\<lparr>isProcessing := True, nFetch := Suc (nFetch y), connected := True\<rparr>"
  have ic: "isConnected sc (y\<lparr>isProcessing := True\<rparr>) = (Inr True, ?y2)"
    using probe by (simp add: isConnected_def Let_def)
  have q2: "queue y = queue ?y2" by (simp add: queue_def)
  have ok2: "\<forall>j < length (queue y).
               resolves (adapter sc (length (sent ?y2) + j)
                 (requestInterceptor sc ?y2 (config (objs ?y2 (queue y ! j)))))"
    using ok by (simp add: requestInterceptor_def getItem_def)
  let ?y3 = "?y2\<lparr>arrs := (arrs ?y2)(queueRef ?y2 := []),
                dispatched := dispatched ?y2 @ map (\<lambda>a. config (objs ?y2 a)) (queue y),
                sent := sent ?y2 @ map (\<lambda>a. requestInterceptor sc ?y2 (config (objs ?y2 a))) (queue y)\<rparr>"
  have loop: "exec sc (DrainLoop 0 (length (queue y))) ?y2 = Some (Inr Unit, ?y3)"
    by (rule drain_all_ok [OF q2 _ ok2]) simp
  let ?y' = "(snd (persistQueue sc ?y3))\<lparr>isProcessing := False\<rparr>"
  have "exec sc ProcessQueue y = Some (Inr Unit, ?y')"
    using np False ic loop q2 by (simp add: exec_ProcessQueue Let_def)
  moreover have "queue ?y' = []"
    by (simp add: persistQueue_def setItem_offline_data_def Let_def queue_def)
  moreover have "dispatched ?y' = dispatched y @ map (\<lambda>a. config (objs y a)) (queue y)"
    by (simp add: persistQueue_def setItem_offline_data_def Let_def)
  moreover have "sent ?y' = sent y @ map (\<lambda>a. requestInterceptor sc y (config (objs y a))) (queue y)"
    by (simp add: persistQueue_def setItem_offline_data_def Let_def requestInterceptor_def getItem_def)
  ultimately show ?thesis by simp
qed

theorem drain_all_succeed_witness:
  "\<not> isProcessing sysAB \<and>
   netInfoFetch script0 (nFetch sysAB) = FetchResolved (Some True) \<and>
   (\<exists>y'. exec script0 ProcessQueue sysAB = Some (Inr Unit, y') \<and>
      queue y' = [] \<and>
      dispatched y' = [clockIn, clockOut] \<and>
      sent y' = [clockIn, clockOut] \<and>
      \<not> isProcessing y')"
  using drain_all_succeed [of sysAB script0]
  by (simp add: sys0_def sysAB_def script0_def JSON_parse0_def resolves_def queue_def requestInterceptor_def getItem_def
      entryA_def entryB_def less_Suc_eq numeral_2_eq_2)

subsection \<open>The dispatch of the head entry fails\<close>

text \<open>
  When the dispatch of the head entry is rejected with anything but the error the response
  interceptor throws after queueing the request, the pass moves the head to the tail, calls
  the dispatcher once and keeps the length of the queue.
\<close>

lemma drain_head_rejected:
  assumes np: "\<not> isProcessing y"
    and ne: "queue y \<noteq> []"
    and probe: "netInfoFetch sc (nFetch y) = FetchResolved (Some True)"
    and disp: "headDispatch sc y = Some (Inl e, y1)"
    and nq: "e \<noteq> RequestQueued"
  shows "\<exists>y'. exec sc ProcessQueue y = Some (Inr Unit, y') \<and>
           queue y' = tl (queue y) @ [hd (queue y)] \<and>
           objs y' = objs y \<and>
           dispatched y' = dispatched y @ [config (objs y (hd (queue y)))] \<and>
           \<not> isProcessing y'"
proof -
  obtain a as where q: "queue y = a # as" using ne by (cases "queue y") auto
  let ?y2 = "y\<lparr>isProcessing := True, nFetch := Suc (nFetch y), connected := True\<rparr>"
  let ?cfg = "config (objs y a)"
  have ic: "isConnected sc (y\<lparr>isProcessing := True\<rparr>) = (Inr True, ?y2)"
    using probe by (simp add: isConnected_def Let_def)
  have q2: "queue ?y2 = a # as" using q by (simp add: queue_def)
  have d: "exec sc (ApiRequest ?cfg) (?y2\<lparr>dispatched := dispatched ?y2 @ [?cfg]\<rparr>) = Some (Inl e, y1)"
    using disp q by (simp add: headDispatch_def atHeadDispatch_def)
  from ApiRequest_untouched [OF d] nq
  have u: "queue_untouched (?y2\<lparr>dispatched := dispatched ?y2 @ [?cfg]\<rparr>) y1" by simp
  then have q1: "queue y1 = a # as"
    using q by (simp add: queue_untouched_def queue_def)
  let ?y3 = "set_queue (as @ [a]) y1"
  have loop: "exec sc (DrainLoop 0 (length (queue ?y2))) ?y2 = Some (Inr Unit, ?y3)"
    using q2 d q1 by (simp add: exec_DrainLoop Let_def)
  let ?y' = "(snd (persistQueue sc ?y3))\<lparr>isProcessing := False\<rparr>"
  have "exec sc ProcessQueue y = Some (Inr Unit, ?y')"
    using np q ic loop by (simp add: exec_ProcessQueue Let_def)
  moreover have "queue ?y' = as @ [a]"
    by (simp add: persistQueue_def setItem_offline_data_def Let_def queue_def set_queue_def)
  moreover have "objs ?y' = objs y"
    using u by (simp add: persistQueue_def setItem_offline_data_def Let_def set_queue_def
        queue_untouched_def)
  moreover have "dispatched ?y' = dispatched y @ [?cfg]"
    using u by (simp add: persistQueue_def setItem_offline_data_def Let_def set_queue_def
        queue_untouched_def)
  ultimately show ?thesis using q by simp
qed

lemma drain_head_rejected_500:
  "\<exists>y'. exec script_500 ProcessQueue sysAB = Some (Inr Unit, y') \<and>
     queue y' = [2, 1] \<and> objs y' = objs sysAB \<and> dispatched y' = [clockIn] \<and>
     \<not> isProcessing y'"
proof -
  have "\<exists>y1. headDispatch script_500 sysAB = Some (Inl (HttpError 500), y1)"
    by (simp add: headDispatch_def atHeadDispatch_def exec_ApiRequest exec_ResponseRejected
        Let_def script_500_def script0_def JSON_parse0_def)
  then obtain y1 where "headDispatch script_500 sysAB = Some (Inl (HttpError 500), y1)" ..
  from drain_head_rejected [OF _ _ _ this]
  show ?thesis
    by (simp add: script_500_def script0_def JSON_parse0_def sysAB_def sys0_def queue_def entryA_def)
qed

text \<open>
  When the request of the head entry gets no response and the probes that follow find the
  device offline, the response interceptor queues the request sent, as a new entry, before
  it throws; the pass then moves the head behind it. The queue has grown by one.
\<close>

lemma drain_head_offline_requeued:
  assumes np: "\<not> isProcessing y" and init: "isInitialized y"
    and q: "queue y = a # as"
    and probe0: "netInfoFetch sc (nFetch y) = FetchResolved (Some True)"
    and nores: "adapter sc (length (sent y)) (requestInterceptor sc y (config (objs y a))) = NoResponse"
    and probe1: "netInfoFetch sc (Suc (nFetch y)) = FetchResolved (Some False)"
    and probe2: "netInfoFetch sc (Suc (Suc (nFetch y))) = FetchResolved (Some False)"
  shows "\<exists>y'. exec sc ProcessQueue y = Some (Inr Unit, y') \<and>
           queue y' = as @ [nextAddr y, a] \<and>
           config (objs y' (nextAddr y)) = requestInterceptor sc y (config (objs y a)) \<and>
           dispatched y' = dispatched y @ [config (objs y a)] \<and>
           length (queue y') = Suc (length (queue y))"
  using assms
  by (simp add: exec_ProcessQueue exec_DrainLoop exec_ApiRequest exec_ResponseRejected
      exec_EnqueueRequest exec_Initialize isConnected_def Let_def queue_def set_queue_def push_request_def
      Date_now_def persistQueue_def setItem_offline_data_def requestInterceptor_def getItem_def
      split: option.split)

text \<open>
  Claim C1. The queue is \<open>[A, B]\<close>; the pass starts with the device connected, the
  request of \<open>A\<close> gets no response and the probe of the response interceptor finds the
  device offline. The dispatch of \<open>A\<close> fails and the dispatcher was called once, but the
  interceptor has queued the request again: the queue ends with three entries, \<open>B\<close>,
  the new copy of \<open>A\<close>, and \<open>A\<close>, not with \<open>[B, A]\<close>.
\<close>

theorem drain_head_offline_duplicate:
  "\<not> isProcessing sysAB \<and> contents sysAB = [entryA, entryB] \<and>
   map_option fst (headDispatch script_drop sysAB) = Some (Inl RequestQueued) \<and>
   map_option (dispatched \<circ> snd) (exec script_drop ProcessQueue sysAB) = Some [clockIn] \<and>
   map_option (length \<circ> queue \<circ> snd) (exec script_drop ProcessQueue sysAB) = Some 3 \<and>
   map_option (contents \<circ> snd) (exec script_drop ProcessQueue sysAB)
     = Some [entryB, \<lparr>ident = ''2000'', config = clockIn, timestamp = 2000\<rparr>, entryA]"
  by (simp add: headDispatch_def atHeadDispatch_def
      exec_Initialize exec_EnqueueRequest exec_ProcessQueue exec_DrainLoop exec_ApiRequest
      exec_ResponseRejected
      queue_def set_queue_def contents_def push_request_def Date_now_def isConnected_def
      setItem_offline_data_def persistQueue_def requestInterceptor_def getItem_def
      sys0_def sysAB_def script0_def JSON_parse0_def script_drop_def entryA_def entryB_def
      clockIn_def clockOut_def Let_def toString_def digits.simps digit_def)

section \<open>Enqueueing\<close>

lemma exec_Initialize_result:
  "exec sc Initialize y = Some r \<Longrightarrow> fst r = Inr Unit"
  by (auto simp add: exec_Initialize Let_def bind_eq_Some_conv split: if_splits)

lemma persistQueue_result: "fst (persistQueue sc y) = Inr ()"
  by (simp add: persistQueue_def setItem_offline_data_def Let_def)

lemma isConnected_result: "fst (isConnected sc y) \<noteq> Inl e"
  by (simp add: isConnected_def Let_def split: fetch_result.split)

lemma enqueueRequest_never_rejects:
  assumes "exec sc (EnqueueRequest cfg) y = Some r"
  shows "fst r = Inr Unit"
proof -
  from assms obtain r0 where i: "exec sc Initialize y = Some r0"
    and rest: "(case fst r0 of
         Inl e \<Rightarrow> Some (Inl e, snd r0)
       | Inr v \<Rightarrow>
           (let t1 = Date_now sc (snd r0);
                t2 = Date_now sc (snd t1);
                y4 = push_request
                       \<lparr>ident = toString (fst t1), config = cfg, timestamp = fst t2\<rparr>
                       (snd t2);
                p = persistQueue sc y4
            in case fst p of
                 Inl e \<Rightarrow> Some (Inl e, snd p)
               | Inr u \<Rightarrow>
                   (let q = isConnected sc (snd p)
                    in case fst q of
                         Inl e \<Rightarrow> Some (Inl e, snd q)
                       | Inr b \<Rightarrow>
                           if b then
                             Option.bind (exec sc ProcessQueue (snd q))
                               (\<lambda>r. Some (Inr Unit, snd r))
                           else Some (Inr Unit, snd q)))) = Some r"
    by (auto simp add: exec_EnqueueRequest bind_eq_Some_conv)
  from exec_Initialize_result [OF i] have "fst r0 = Inr Unit" .
  with rest show ?thesis
    by (auto simp add: Let_def persistQueue_result isConnected_result bind_eq_Some_conv
        split: sum.splits if_splits)
qed

text \<open>
  Claim C3, as the code has it. \<^verbatim>\<open>persistQueue\<close> catches the rejected write and logs
  it, so \<^verbatim>\<open>enqueueRequest\<close> does not fail when persisting fails: it never rejects, and
  on an initialised service whose probe reports the device offline it returns normally,
  with the new entry appended to the queue in memory and the stored copy as it was before
  the call.
\<close>

theorem enqueueRequest_swallows_write_failure:
  assumes init: "isInitialized y"
    and rej: "setItemRejects sc (nSetItem y)"
  shows "(\<forall>e z. exec sc (EnqueueRequest cfg) y \<noteq> Some (Inl e, z)) \<and>
         (netInfoFetch sc (nFetch y) = FetchResolved (Some False) \<longrightarrow>
            (\<exists>y'. exec sc (EnqueueRequest cfg) y = Some (Inr Unit, y') \<and>
               queue y' = queue y @ [nextAddr y] \<and>
               objs y' = (objs y)(nextAddr y :=
                 \<lparr>ident = toString (dateNow sc (nNow y)), config = cfg,
                  timestamp = dateNow sc (Suc (nNow y))\<rparr>) \<and>
               offline_data y' = offline_data y))"
proof (intro conjI allI impI)
  fix e z
  show "exec sc (EnqueueRequest cfg) y \<noteq> Some (Inl e, z)"
    using enqueueRequest_never_rejects [of sc cfg y "(Inl e, z)"] by auto
next
  assume "netInfoFetch sc (nFetch y) = FetchResolved (Some False)"
  with init rej
  show "\<exists>y'. exec sc (EnqueueRequest cfg) y = Some (Inr Unit, y') \<and>
               queue y' = queue y @ [nextAddr y] \<and>
               objs y' = (objs y)(nextAddr y :=
                 \<lparr>ident = toString (dateNow sc (nNow y)), config = cfg,
                  timestamp = dateNow sc (Suc (nNow y))\<rparr>) \<and>
               offline_data y' = offline_data y"
    by (simp add: exec_EnqueueRequest exec_Initialize Let_def Date_now_def push_request_def
        persistQueue_def setItem_offline_data_def isConnected_def queue_def set_queue_def)
qed

theorem enqueueRequest_swallows_write_failure_witness:
  "isInitialized sys0 \<and> setItemRejects script_write_fails (nSetItem sys0) \<and>
   netInfoFetch script_write_fails (nFetch sys0) = FetchResolved (Some False) \<and>
   (\<exists>y'. exec script_write_fails (EnqueueRequest clockIn) sys0 = Some (Inr Unit, y') \<and>
      queue y' = [1] \<and>
      objs y' 1 = \<lparr>ident = ''2000'', config = clockIn, timestamp = 2000\<rparr> \<and>
      offline_data y' = None)"
  using enqueueRequest_swallows_write_failure [of sys0 script_write_fails clockIn]
  by (auto simp add: sys0_def script_write_fails_def script_offline_def script0_def JSON_parse0_def queue_def
      toString_def digits.simps digit_def)

text \<open>
  Claim C3, as the spec states it, fails: the write of the queue is rejected and
  \<^verbatim>\<open>enqueueRequest\<close> still resolves; nothing was stored.
\<close>

theorem enqueueRequest_write_failure_reported_as_success:
  "setItemRejects script_write_fails (nSetItem sys0) \<and>
   map_option fst (exec script_write_fails (EnqueueRequest clockIn) sys0) = Some (Inr Unit) \<and>
   map_option (offline_data \<circ> snd) (exec script_write_fails (EnqueueRequest clockIn) sys0)
     = Some None \<and>
   map_option (contents \<circ> snd) (exec script_write_fails (EnqueueRequest clockIn) sys0)
     = Some [\<lparr>ident = ''2000'', config = clockIn, timestamp = 2000\<rparr>]"
  by (simp add: exec_Initialize exec_EnqueueRequest
      queue_def set_queue_def contents_def push_request_def Date_now_def isConnected_def
      setItem_offline_data_def persistQueue_def
      sys0_def script0_def JSON_parse0_def script_offline_def script_write_fails_def
      Let_def toString_def digits.simps digit_def)

text \<open>
  Claim C7. The id of an entry is \<^verbatim>\<open>Date.now().toString()\<close>. Two calls of
  \<^verbatim>\<open>enqueueRequest\<close> within one millisecond (the clock reads 2000 at each call) put
  two distinct entries in the queue, at addresses 1 and 2, with the same id.
\<close>

theorem enqueueTwice_same_millisecond:
  "dateNow script_offline 0 = dateNow script_offline 2 \<and>
   map_option fst (enqueueTwice script_offline clockIn clockOut sys0) = Some (Inr Unit) \<and>
   map_option (queue \<circ> snd) (enqueueTwice script_offline clockIn clockOut sys0) = Some [1, 2] \<and>
   map_option (map ident \<circ> contents \<circ> snd) (enqueueTwice script_offline clockIn clockOut sys0)
     = Some [''2000'', ''2000'']"
  by (simp add: enqueueTwice_def exec_Initialize exec_EnqueueRequest
      queue_def set_queue_def contents_def push_request_def Date_now_def isConnected_def
      setItem_offline_data_def persistQueue_def
      sys0_def script0_def JSON_parse0_def script_offline_def
      Let_def toString_def digits.simps digit_def)

text \<open>The ids of two entries differ whenever the clock readings they were made from do.\<close>

lemma digit_inj: "a < 10 \<Longrightarrow> b < 10 \<Longrightarrow> digit a = digit b \<Longrightarrow> a = b"
proof -
  assume a: "a < 10" and b: "b < 10" and e: "digit a = digit b"
  have d: "distinct ''0123456789''" by simp
  have "length ''0123456789'' = 10" by simp
  with a b e d show "a = b"
    unfolding digit_def by (metis nth_eq_iff_index_eq)
qed

lemma digits_not_Nil: "digits n \<noteq> []"
  by (subst digits.simps) simp

lemma digits_inj: "digits n = digits m \<Longrightarrow> n = m"
proof (induction n arbitrary: m rule: digits.induct)
  case (1 n)
  show ?case
  proof (cases "n < 10")
    case True
    show ?thesis
    proof (cases "m < 10")
      case m: True
      from 1(2) True m have "digit n = digit m"
        by (simp add: digits.simps [of n] digits.simps [of m])
      with True m show ?thesis by (rule digit_inj)
    next
      case m: False
      from 1(2) True m have "[digit n] = digits (m div 10) @ [digit (m mod 10)]"
        by (simp add: digits.simps [of n] digits.simps [of m])
      then have "digits (m div 10) = []" by simp
      then show ?thesis using digits_not_Nil by blast
    qed
  next
    case False
    show ?thesis
    proof (cases "m < 10")
      case m: True
      from 1(2) False m have "digits (n div 10) @ [digit (n mod 10)] = [digit m]"
        by (simp add: digits.simps [of n] digits.simps [of m])
      then have "digits (n div 10) = []" by simp
      then show ?thesis using digits_not_Nil by blast
    next
      case m: False
      from 1(2) False m
      have e: "digits (n div 10) @ [digit (n mod 10)] = digits (m div 10) @ [digit (m mod 10)]"
        by (simp add: digits.simps [of n] digits.simps [of m])
      then have "digits (n div 10) = digits (m div 10)" by simp
      from 1(1) [OF False this] have q: "n div 10 = m div 10" .
      from e have "digit (n mod 10) = digit (m mod 10)" by simp
      then have r: "n mod 10 = m mod 10" by (intro digit_inj) simp_all
      from q r show ?thesis by (metis div_mult_mod_eq)
    qed
  qed
qed

lemma toString_inj: "0 \<le> i \<Longrightarrow> 0 \<le> j \<Longrightarrow> toString i = toString j \<Longrightarrow> i = j"
  using digits_inj [of "nat i" "nat j"] by (simp add: toString_def)

section \<open>The snapshot of the queue\<close>

text \<open>
  Claim C8, as the code has it. \<^verbatim>\<open>getQueue\<close> returns a new array with the references
  of the queue in order. Whatever a caller stores in that array, the queue and its entries
  stay as they were; but the entries are the objects of the queue themselves, and writing
  to one of them through the returned array changes the contents of the queue.
\<close>

theorem getQueue_fresh_array:
  assumes "queueRef y < nextAddr y"
  shows "arrs (snd (getQueue y)) (fst (getQueue y)) = queue y \<and>
         contents (snd (getQueue y)) = contents y \<and>
         queue (caller_array_write (fst (getQueue y)) xs (snd (getQueue y))) = queue y \<and>
         contents (caller_array_write (fst (getQueue y)) xs (snd (getQueue y))) = contents y \<and>
         (a \<in> set (queue y) \<and> e \<noteq> objs y a \<longrightarrow>
            contents (caller_object_write a e (snd (getQueue y))) \<noteq> contents y)"
proof -
  have "a \<in> set (queue y) \<Longrightarrow> e \<noteq> objs y a \<Longrightarrow>
          map ((objs y)(a := e)) (queue y) \<noteq> map (objs y) (queue y)"
    by (metis fun_upd_same map_eq_conv)
  with assms show ?thesis
    by (simp add: getQueue_def caller_array_write_def caller_object_write_def
        queue_def contents_def)
qed

theorem getQueue_fresh_array_witness:
  "queueRef sysAB < nextAddr sysAB \<and>
   arrs (snd (getQueue sysAB)) (fst (getQueue sysAB)) = queue sysAB \<and>
   contents (caller_array_write (fst (getQueue sysAB)) [] (snd (getQueue sysAB))) = contents sysAB \<and>
   1 \<in> set (queue sysAB) \<and> entryB \<noteq> objs sysAB 1 \<and>
   contents (caller_object_write 1 entryB (snd (getQueue sysAB))) \<noteq> contents sysAB"
  using getQueue_fresh_array [of sysAB "[]" 1 entryB]
  by (simp add: sysAB_def sys0_def queue_def entryA_def entryB_def)

text \<open>
  Claim C8, as the spec states it, fails: the caller assigns to the first element of the
  snapshot of \<open>[A, B]\<close>, and the queue then holds a changed first entry.
\<close>

theorem getQueue_entries_aliased:
  "contents sysAB = [entryA, entryB] \<and>
   arrs (snd (getQueue sysAB)) (fst (getQueue sysAB)) ! 0 = 1 \<and>
   contents (caller_object_write 1 entryB (snd (getQueue sysAB))) = [entryB, entryB] \<and>
   entryA \<noteq> entryB"
  by (simp add: getQueue_def caller_object_write_def contents_def queue_def sysAB_def sys0_def
      entryA_def entryB_def)

section \<open>Pending actions and the queue\<close>

lemma offlineMiddleware_offline:
  assumes "processOffline a" and "netInfoFetch sc (nFetch y) = FetchResolved (Some False)"
  shows "offlineMiddleware sc a (y, st) =
           (Inr (Queued (atype a @ ''_QUEUED'') a),
            y\<lparr>nFetch := Suc (nFetch y), connected := False, nNow := Suc (nNow y)\<rparr>,
            st\<lparr>pendingActions := pendingActions st @
                  [\<lparr>pa_action = a, pa_timestamp = dateNow sc (nNow y), attempts = Some 0\<rparr>]\<rparr>)"
  using assms
  by (simp add: offlineMiddleware_def isConnected_def Date_now_def markOfflineAction_def Let_def)

text \<open>
  Claim C6, as the code has it. The middleware and the queue service do not call each
  other: each action tagged \<^verbatim>\<open>processOffline\<close> that the middleware intercepts while
  the probe reports the device offline adds exactly one pending record and leaves the
  queue and its entries as they were.
\<close>

theorem pending_actions_independent_of_queue:
  assumes "\<forall>a \<in> set as. processOffline a"
    and "\<forall>k. netInfoFetch sc k = FetchResolved (Some False)"
  shows "length (pendingActions (snd (dispatchAll sc as (y, st))))
           = length (pendingActions st) + length as \<and>
         queue (fst (dispatchAll sc as (y, st))) = queue y \<and>
         contents (fst (dispatchAll sc as (y, st))) = contents y"
  using assms
proof (induction as arbitrary: y st)
  case Nil
  then show ?case by simp
next
  case (Cons a as)
  have p: "processOffline a" using Cons.prems(1) by simp
  have f: "netInfoFetch sc (nFetch y) = FetchResolved (Some False)" using Cons.prems(2) by simp
  have r: "\<forall>a \<in> set as. processOffline a" using Cons.prems(1) by simp
  let ?y1 = "y\<lparr>nFetch := Suc (nFetch y), connected := False, nNow := Suc (nNow y)\<rparr>"
  let ?st1 = "st\<lparr>pendingActions := pendingActions st @
                [\<lparr>pa_action = a, pa_timestamp = dateNow sc (nNow y), attempts = Some 0\<rparr>]\<rparr>"
  have step: "dispatchAll sc (a # as) (y, st) = dispatchAll sc as (?y1, ?st1)"
    by (simp add: offlineMiddleware_offline [OF p f])
  have q: "queue ?y1 = queue y" "contents ?y1 = contents y"
    by (simp_all add: queue_def contents_def)
  from Cons.IH [OF r Cons.prems(2), of ?y1 ?st1] q show ?case
    unfolding step by simp
qed

theorem pending_actions_independent_of_queue_witness:
  "list_all processOffline [sendMessage, sendMessage] \<and>
   (\<forall>k. netInfoFetch script_offline k = FetchResolved (Some False)) \<and>
   length (pendingActions (snd (dispatchAll script_offline [sendMessage, sendMessage]
      (sys0, initialState)))) = 2 \<and>
   queue (fst (dispatchAll script_offline [sendMessage, sendMessage] (sys0, initialState))) = []"
  using pending_actions_independent_of_queue
    [of "[sendMessage, sendMessage]" script_offline sys0 initialState]
  by (simp add: sendMessage_def script_offline_def script0_def JSON_parse0_def initialState_def sys0_def queue_def)

text \<open>
  Claim C6, as the spec states it, fails: from the initial state (no pending record, empty
  queue) one intercepted action leaves one pending record and an empty queue.
\<close>

theorem pending_count_diverges_from_queue:
  "length (pendingActions (snd (snd (offlineMiddleware script_offline sendMessage
      (sys0, initialState))))) = 1 \<and>
   length (queue (fst (snd (offlineMiddleware script_offline sendMessage
      (sys0, initialState))))) = 0 \<and>
   length (pendingActions initialState) = length (queue sys0)"
  by (simp add: offlineMiddleware_def isConnected_def Date_now_def markOfflineAction_def Let_def
      sendMessage_def script_offline_def script0_def JSON_parse0_def initialState_def sys0_def queue_def)

section \<open>A request answered 401\<close>

text \<open>A call of the axios instance is its two halves, one after the other; and the
  response interceptor on a 401 is its two halves, before and after the answer to the
  refresh.\<close>

lemma ApiRequest_send_then_handle:
  "exec sc (ApiRequest cfg) y
     = handleAnswer sc (fst (sendRequest sc cfg y)) (snd (sendRequest sc cfg y))"
  by (simp add: exec_ApiRequest sendRequest_def handleAnswer_def Let_def
      split: http_result.split)

lemma ResponseRejected_401_begin_then_end:
  "exec sc (ResponseRejected cfg1 (Status 401)) y
     = handle401End sc cfg1 (fst (refreshBegin sc y)) (snd (refreshBegin sc y))"
  by (simp add: exec_ResponseRejected handle401End_def refreshAttempt_def Let_def
      split: prod.split option.split)



text \<open>
  A retry that is answered 401 is handled like the first answer: the interceptor refreshes
  a second time for the same request (three sends, two refreshes).
\<close>

lemma unauthorized_twice_refreshes_twice:
  "map_option fst (exec script_401 (ApiRequest clockIn) sysAuth) = Some (Inr (Response 200)) \<and>
   map_option (refreshed \<circ> snd) (exec script_401 (ApiRequest clockIn) sysAuth)
     = Some [JStr ''refresh0'', JStr ''refresh0''] \<and>
   map_option (map authorization \<circ> sent \<circ> snd) (exec script_401 (ApiRequest clockIn) sysAuth)
     = Some [Some ''Bearer token0'', Some ''Bearer token1'', Some ''Bearer token2'']"
  by (simp add: exec_ApiRequest exec_ResponseRejected refreshAttempt_def refreshBegin_def
      refreshEnd_def setItem_auth_token_def requestInterceptor_def getItem_def bearer_def
      script_401_def script0_def JSON_parse0_def sysAuth_def sys0_def clockIn_def
      Let_def digits.simps digit_def)

text \<open>
  What is stored is read through \<^verbatim>\<open>JSON.parse\<close>. A stored refresh token with the text
  \<^verbatim>\<open>null\<close> reads as \<^verbatim>\<open>null\<close>: the interceptor posts no refresh, clears both tokens and
  rejects with the 401. A stored token with the text \<^verbatim>\<open>1e3\<close> reads as the number 1000
  and goes out as \<^verbatim>\<open>Bearer 1000\<close>.
\<close>

lemma stored_null_refresh_token_posts_nothing:
  "map_option fst (exec script_401 (ApiRequest clockIn) sysNullRefresh)
     = Some (Inl (HttpError 401)) \<and>
   map_option (refreshed \<circ> snd) (exec script_401 (ApiRequest clockIn) sysNullRefresh) = Some [] \<and>
   map_option (auth_token \<circ> snd) (exec script_401 (ApiRequest clockIn) sysNullRefresh)
     = Some None \<and>
   map_option (length \<circ> sent \<circ> snd) (exec script_401 (ApiRequest clockIn) sysNullRefresh)
     = Some 1"
  by (simp add: exec_ApiRequest exec_ResponseRejected refreshAttempt_def refreshBegin_def
      refreshEnd_def clearAuthAndRedirect_def requestInterceptor_def getItem_def bearer_def
      script_401_def script0_def JSON_parse0_def sysNullRefresh_def sysAuth_def sys0_def
      clockIn_def Let_def)

lemma stored_number_token_header:
  "requestInterceptor script0 sysNumberToken clockIn
     = clockIn\<lparr>authorization := Some ''Bearer 1000''\<rparr>"
  by (simp add: requestInterceptor_def getItem_def bearer_def script0_def JSON_parse0_def
      sysNumberToken_def sys0_def Let_def toString_def digits.simps digit_def)


section \<open>The end of a sync pass\<close>

lemma findIndexFrom_bound:
  "findIndexFrom p i xs = - 1 \<or> int i \<le> findIndexFrom p i xs"
  by (induction xs arbitrary: i) (auto, force)

lemma findIndexFrom_eq_iff:
  "findIndexFrom p i xs = int (i + j) \<longleftrightarrow>
     j < length xs \<and> p (xs ! j) \<and> (\<forall>k < j. \<not> p (xs ! k))"
proof (induction xs arbitrary: i j)
  case Nil
  then show ?case by simp
next
  case (Cons x xs)
  show ?case
  proof (cases "p x")
    case True
    then show ?thesis by (cases j) auto
  next
    case False
    show ?thesis
    proof (cases j)
      case 0
      have "findIndexFrom p (Suc i) xs \<noteq> int i"
        using findIndexFrom_bound [of p "Suc i" xs] by auto
      with False 0 show ?thesis by simp
    next
      case (Suc j')
      have "findIndexFrom p (Suc i) xs = int (Suc i + j') \<longleftrightarrow>
              j' < length xs \<and> p (xs ! j') \<and> (\<forall>k < j'. \<not> p (xs ! k))"
        by (rule Cons.IH)
      moreover have "(\<forall>k < Suc j'. \<not> p ((x # xs) ! k)) \<longleftrightarrow> (\<forall>k < j'. \<not> p (xs ! k))"
        using False by (auto simp add: less_Suc_eq_0_disj)
      ultimately show ?thesis using False Suc by simp
    qed
  qed
qed

lemma findIndex_eq_iff:
  "findIndex p xs = int j \<longleftrightarrow> j < length xs \<and> p (xs ! j) \<and> (\<forall>k < j. \<not> p (xs ! k))"
  using findIndexFrom_eq_iff [of p 0 xs j] by (simp add: findIndex_def)

lemma filterFrom_keeps:
  "(\<And>j. j < length xs \<Longrightarrow> P (xs ! j) \<Longrightarrow> keep (int (i + j))) \<Longrightarrow>
   filter P (filterFrom keep i xs) = filter P xs"
proof (induction xs arbitrary: i)
  case Nil
  then show ?case by simp
next
  case (Cons x xs)
  have tl: "filter P (filterFrom keep (Suc i) xs) = filter P xs"
  proof (rule Cons.IH)
    fix j assume "j < length xs" "P (xs ! j)"
    then show "keep (int (Suc i + j))" using Cons.prems [of "Suc j"] by simp
  qed
  have hd: "P x \<Longrightarrow> keep (int i)" using Cons.prems [of 0] by simp
  show ?case using tl hd by auto
qed

lemma filterFrom_drops_first:
  "(\<And>j. j < length xs \<Longrightarrow> P (xs ! j) \<Longrightarrow>
       keep (int (i + j)) \<longleftrightarrow> \<not> (\<forall>k < j. \<not> P (xs ! k))) \<Longrightarrow>
   filter P (filterFrom keep i xs) = tl (filter P xs)"
proof (induction xs arbitrary: i)
  case Nil
  then show ?case by simp
next
  case (Cons x xs)
  show ?case
  proof (cases "P x")
    case True
    have "\<not> keep (int i)" using Cons.prems [of 0] True by simp
    moreover have "filter P (filterFrom keep (Suc i) xs) = filter P xs"
    proof (rule filterFrom_keeps)
      fix j assume j: "j < length xs" "P (xs ! j)"
      have "keep (int (i + Suc j)) \<longleftrightarrow> \<not> (\<forall>k < Suc j. \<not> P ((x # xs) ! k))"
        using Cons.prems [of "Suc j"] j by simp
      moreover have "\<not> (\<forall>k < Suc j. \<not> P ((x # xs) ! k))" using True by auto
      ultimately show "keep (int (Suc i + j))" by simp
    qed
    ultimately show ?thesis using True by simp
  next
    case False
    have "filter P (filterFrom keep (Suc i) xs) = tl (filter P xs)"
    proof (rule Cons.IH)
      fix j assume j: "j < length xs" "P (xs ! j)"
      have "keep (int (i + Suc j)) \<longleftrightarrow> \<not> (\<forall>k < Suc j. \<not> P ((x # xs) ! k))"
        using Cons.prems [of "Suc j"] j by simp
      moreover have "(\<forall>k < Suc j. \<not> P ((x # xs) ! k)) \<longleftrightarrow> (\<forall>k < j. \<not> P (xs ! k))"
        using False by (auto simp add: less_Suc_eq_0_disj)
      ultimately show "keep (int (Suc i + j)) \<longleftrightarrow> \<not> (\<forall>k < j. \<not> P (xs ! k))" by simp
    qed
    then show ?thesis using False by simp
  qed
qed

lemma successfulActionIndexes_iff:
  assumes j: "j < length pas" and t: "atype (pa_action (pas ! j)) = t"
  shows "int j \<in> set (successfulActionIndexes rs pas) \<longleftrightarrow>
           (\<exists>r \<in> set rs. success r \<and> atype (res_action r) = t) \<and>
           (\<forall>k < j. atype (pa_action (pas ! k)) \<noteq> t)"
proof
  assume "int j \<in> set (successfulActionIndexes rs pas)"
  then obtain r where r: "r \<in> set rs" "success r"
    and f: "findIndex (\<lambda>pa. atype (pa_action pa) = atype (res_action r)) pas = int j"
    by (auto simp add: successfulActionIndexes_def)
  from f have "atype (pa_action (pas ! j)) = atype (res_action r)"
    and "\<forall>k < j. atype (pa_action (pas ! k)) \<noteq> atype (res_action r)"
    by (simp_all add: findIndex_eq_iff)
  with t r show "(\<exists>r \<in> set rs. success r \<and> atype (res_action r) = t) \<and>
           (\<forall>k < j. atype (pa_action (pas ! k)) \<noteq> t)" by auto
next
  assume a: "(\<exists>r \<in> set rs. success r \<and> atype (res_action r) = t) \<and>
           (\<forall>k < j. atype (pa_action (pas ! k)) \<noteq> t)"
  then obtain r where r: "r \<in> set rs" "success r" "atype (res_action r) = t" by auto
  have "findIndex (\<lambda>pa. atype (pa_action pa) = atype (res_action r)) pas = int j"
    using a j t r(3) by (simp add: findIndex_eq_iff)
  with r show "int j \<in> set (successfulActionIndexes rs pas)"
    by (force simp add: successfulActionIndexes_def)
qed

lemma sync_fulfilled_type_with_success:
  assumes "\<exists>r \<in> set rs. success r \<and> atype (res_action r) = t"
  shows "filter (\<lambda>pa. atype (pa_action pa) = t)
           (pendingActions (syncOfflineData_fulfilled rs now st))
         = tl (filter (\<lambda>pa. atype (pa_action pa) = t) (pendingActions st))"
proof -
  let ?pas = "pendingActions st"
  have "filter (\<lambda>pa. atype (pa_action pa) = t)
          (filterFrom (\<lambda>index. index \<notin> set (successfulActionIndexes rs ?pas)) 0 ?pas)
        = tl (filter (\<lambda>pa. atype (pa_action pa) = t) ?pas)"
  proof (rule filterFrom_drops_first)
    fix j assume "j < length ?pas" "atype (pa_action (?pas ! j)) = t"
    from successfulActionIndexes_iff [OF this, of rs] assms
    show "int (0 + j) \<notin> set (successfulActionIndexes rs ?pas) \<longleftrightarrow>
            \<not> (\<forall>k < j. \<not> atype (pa_action (?pas ! k)) = t)"
      by simp
  qed
  then show ?thesis
    by (simp add: syncOfflineData_fulfilled_def filterByIndex_def)
qed

lemma sync_fulfilled_type_without_success:
  assumes "\<not> (\<exists>r \<in> set rs. success r \<and> atype (res_action r) = t)"
  shows "filter (\<lambda>pa. atype (pa_action pa) = t)
           (pendingActions (syncOfflineData_fulfilled rs now st))
         = filter (\<lambda>pa. atype (pa_action pa) = t) (pendingActions st)"
proof -
  let ?pas = "pendingActions st"
  have "filter (\<lambda>pa. atype (pa_action pa) = t)
          (filterFrom (\<lambda>index. index \<notin> set (successfulActionIndexes rs ?pas)) 0 ?pas)
        = filter (\<lambda>pa. atype (pa_action pa) = t) ?pas"
  proof (rule filterFrom_keeps)
    fix j assume "j < length ?pas" "atype (pa_action (?pas ! j)) = t"
    from successfulActionIndexes_iff [OF this, of rs] assms
    show "int (0 + j) \<notin> set (successfulActionIndexes rs ?pas)"
      by simp
  qed
  then show ?thesis
    by (simp add: syncOfflineData_fulfilled_def filterByIndex_def)
qed

text \<open>
  Claim C10. The reducer for \<^verbatim>\<open>syncOfflineData.fulfilled\<close> looks each successful
  result up by action type, so all successful results of one type find the same index,
  the first pending record of that type. When two or more successful results have the
  type \<open>t\<close>, the pending records of type \<open>t\<close> that remain are all of them except the
  first, in order: at most one is removed and the other duplicates stay.
\<close>

theorem sync_removes_one_pending_action_per_type:
  assumes "2 \<le> length (filter (\<lambda>r. success r \<and> atype (res_action r) = t) rs)"
  shows "filter (\<lambda>pa. atype (pa_action pa) = t)
           (pendingActions (syncOfflineData_fulfilled rs now st))
         = tl (filter (\<lambda>pa. atype (pa_action pa) = t) (pendingActions st))"
proof (rule sync_fulfilled_type_with_success)
  from assms have "filter (\<lambda>r. success r \<and> atype (res_action r) = t) rs \<noteq> []" by auto
  then show "\<exists>r \<in> set rs. success r \<and> atype (res_action r) = t"
    by (simp add: filter_empty_conv)
qed

theorem sync_removes_one_pending_action_per_type_witness:
  "syncOfflineData (\<lambda>k a. True) twoPending = Some twoResults \<and>
   2 \<le> length (filter (\<lambda>r. success r \<and> atype (res_action r) = ''messages/sendMessage'')
          twoResults) \<and>
   filter (\<lambda>pa. atype (pa_action pa) = ''messages/sendMessage'')
     (pendingActions (syncOfflineData_fulfilled twoResults 3000 twoPending))
     = [pendingSend 1001] \<and>
   pendingActions (syncOfflineData_fulfilled twoResults 3000 twoPending) = [pendingSend 1001]"
proof -
  have k: "2 \<le> length (filter (\<lambda>r. success r \<and> atype (res_action r) = ''messages/sendMessage'')
          twoResults)"
    by (simp add: twoResults_def twoPending_def pendingSend_def sendMessage_def)
  have "pendingActions (syncOfflineData_fulfilled twoResults 3000 twoPending) = [pendingSend 1001]"
    by (simp add: syncOfflineData_fulfilled_def successfulActionIndexes_def filterByIndex_def
        findIndex_def twoResults_def twoPending_def pendingSend_def sendMessage_def
        initialState_def)
  moreover have "syncOfflineData (\<lambda>k a. True) twoPending = Some twoResults"
    by (simp add: syncOfflineData_def twoResults_def twoPending_def initialState_def)
  ultimately show ?thesis
    using k sync_removes_one_pending_action_per_type [OF k, of 3000 twoPending]
    by (simp add: twoPending_def pendingSend_def sendMessage_def)
qed

end
